theory Spec2Isabelle
  imports Main "HOL-Library.Word"
begin

section \<open>JavaScript strings\<close>

text \<open>
  A JavaScript string is a sequence of 16-bit code units; \<open>length\<close> counts code units and
  the regular expressions of \<^verbatim>\<open>script.js\<close> (none carries the \<^verbatim>\<open>u\<close> flag) match code
  units. String literals of the source are written with \<open>js\<close>.
\<close>

type_synonym code_unit = "16 word"
type_synonym jsstring = "code_unit list"

definition js :: "string \<Rightarrow> jsstring" where
  "js cs = map (\<lambda>c. word_of_nat (of_char c)) cs"

text \<open>
  The code units that \<^verbatim>\<open>String.prototype.trim\<close>, the regular-expression class
  \<^verbatim>\<open>\s\<close> and the prefix skipping of \<^verbatim>\<open>parseInt\<close> treat as white space: the
  ECMAScript productions WhiteSpace (TAB, VT, FF, SP, NBSP, ZWNBSP and the Unicode
  space separators) and LineTerminator (LF, CR, LS, PS).
\<close>

definition isWhiteSpace :: "code_unit \<Rightarrow> bool" where
  "isWhiteSpace c \<longleftrightarrow>
     c = 0x0009 \<or> c = 0x000A \<or> c = 0x000B \<or> c = 0x000C \<or> c = 0x000D \<or> c = 0x0020 \<or>
     c = 0x00A0 \<or> c = 0x1680 \<or> (0x2000 \<le> c \<and> c \<le> 0x200A) \<or> c = 0x2028 \<or>
     c = 0x2029 \<or> c = 0x202F \<or> c = 0x205F \<or> c = 0x3000 \<or> c = 0xFEFF"

text \<open>\<^verbatim>\<open>s.trim()\<close>: white space removed from both ends.\<close>

definition trim :: "jsstring \<Rightarrow> jsstring" where
  "trim s = rev (dropWhile isWhiteSpace (rev (dropWhile isWhiteSpace s)))"

text \<open>The character classes \<^verbatim>\<open>[A-Z]\<close>, \<^verbatim>\<open>[a-z]\<close> and \<^verbatim>\<open>\d\<close> (ASCII digits only).\<close>

definition isUpper :: "code_unit \<Rightarrow> bool" where
  "isUpper c \<longleftrightarrow> 0x41 \<le> c \<and> c \<le> 0x5A"

definition isLower :: "code_unit \<Rightarrow> bool" where
  "isLower c \<longleftrightarrow> 0x61 \<le> c \<and> c \<le> 0x7A"

definition isDigit :: "code_unit \<Rightarrow> bool" where
  "isDigit c \<longleftrightarrow> 0x30 \<le> c \<and> c \<le> 0x39"

text \<open>
  The class \<^verbatim>\<open>[!@#$%^&*(),.?":{}|<>]\<close> of \<open>validatePassword\<close>, code unit by code
  unit in the order of the source.
\<close>

definition specialChars :: "code_unit list" where
  "specialChars =
     [0x21, 0x40, 0x23, 0x24, 0x25, 0x5E, 0x26, 0x2A, 0x28, 0x29,
      0x2C, 0x2E, 0x3F, 0x22, 0x3A, 0x7B, 0x7D, 0x7C, 0x3C, 0x3E]"

definition isSpecial :: "code_unit \<Rightarrow> bool" where
  "isSpecial c \<longleftrightarrow> c \<in> set specialChars"

subsection \<open>The regular expressions of the validator\<close>

text \<open>\<^verbatim>\<open>/^[a-zA-Z\s]+$/.test(v)\<close>: one or more code units, each a letter or white space.\<close>

definition nameRegex_test :: "jsstring \<Rightarrow> bool" where
  "nameRegex_test v \<longleftrightarrow> v \<noteq> [] \<and> list_all (\<lambda>c. isLower c \<or> isUpper c \<or> isWhiteSpace c) v"

text \<open>
  \<^verbatim>\<open>/^[^\s@]+@[^\s@]+\.[^\s@]+$/.test(v)\<close>. The class \<^verbatim>\<open>[^\s@]\<close> is every code unit
  that is neither white space nor \<^verbatim>\<open>@\<close> (so it contains the dot). The anchored
  pattern matches \<open>v\<close> exactly when \<open>v\<close> splits, at an \<^verbatim>\<open>@\<close> in position \<open>i\<close> and a
  dot in a later position \<open>j\<close>, into three non-empty runs of that class.
\<close>

definition notSpaceAt :: "code_unit \<Rightarrow> bool" where
  "notSpaceAt c \<longleftrightarrow> \<not> isWhiteSpace c \<and> c \<noteq> 0x40"

definition run1 :: "jsstring \<Rightarrow> bool" where
  "run1 w \<longleftrightarrow> w \<noteq> [] \<and> list_all notSpaceAt w"

definition emailRegex_test :: "jsstring \<Rightarrow> bool" where
  "emailRegex_test v \<longleftrightarrow>
     list_ex (\<lambda>i. list_ex (\<lambda>j.
        i < j \<and> v ! i = 0x40 \<and> v ! j = 0x2E \<and>
        run1 (take i v) \<and> run1 (take (j - Suc i) (drop (Suc i) v)) \<and> run1 (drop (Suc j) v))
        [0..<length v]) [0..<length v]"

text \<open>The four unanchored tests of \<open>validatePassword\<close>.\<close>

definition hasUpperCase :: "jsstring \<Rightarrow> bool" where
  "hasUpperCase v \<longleftrightarrow> list_ex isUpper v"

definition hasLowerCase :: "jsstring \<Rightarrow> bool" where
  "hasLowerCase v \<longleftrightarrow> list_ex isLower v"

definition hasNumbers :: "jsstring \<Rightarrow> bool" where
  "hasNumbers v \<longleftrightarrow> list_ex isDigit v"

definition hasSpecialChar :: "jsstring \<Rightarrow> bool" where
  "hasSpecialChar v \<longleftrightarrow> list_ex isSpecial v"

text \<open>\<^verbatim>\<open>value.replace(/\D/g, '')\<close>: every code unit that is not a digit is removed.\<close>

definition digitsOnly :: "jsstring \<Rightarrow> jsstring" where
  "digitsOnly v = filter isDigit v"

subsection \<open>parseInt\<close>

text \<open>
  \<^verbatim>\<open>parseInt(string)\<close> with no radix, after ECMAScript: leading white space is skipped,
  one sign is read, a prefix \<^verbatim>\<open>0x\<close> or \<^verbatim>\<open>0X\<close> selects radix 16 (radix 10
  otherwise), and the longest run of digits of the radix is converted; an empty run gives
  \<^verbatim>\<open>NaN\<close>, here \<open>None\<close>. The result is kept as the mathematical integer: the source
  only tests it with \<^verbatim>\<open>isNaN\<close>, \<^verbatim>\<open>< 13\<close> and \<^verbatim>\<open>> 120\<close>, and rounding to a
  double is monotone and leaves 13 and 120 fixed, so these tests give the same answers.
\<close>

definition digitValue :: "code_unit \<Rightarrow> nat option" where
  "digitValue c =
     (if isDigit c then Some (unat c - 0x30)
      else if 0x61 \<le> c \<and> c \<le> 0x7A then Some (unat c - 0x61 + 10)
      else if 0x41 \<le> c \<and> c \<le> 0x5A then Some (unat c - 0x41 + 10)
      else None)"

definition isRadixDigit :: "nat \<Rightarrow> code_unit \<Rightarrow> bool" where
  "isRadixDigit R c \<longleftrightarrow> (case digitValue c of None \<Rightarrow> False | Some d \<Rightarrow> d < R)"

definition mathInt :: "nat \<Rightarrow> jsstring \<Rightarrow> int" where
  "mathInt R z = foldl (\<lambda>a c. a * int R + int (case digitValue c of None \<Rightarrow> 0 | Some d \<Rightarrow> d)) 0 z"

definition parseInt :: "jsstring \<Rightarrow> int option" where
  "parseInt inputString =
     (let S = dropWhile isWhiteSpace inputString;
          sign = (if S \<noteq> [] \<and> hd S = 0x2D then - 1 else 1 :: int);
          S1 = (if S \<noteq> [] \<and> (hd S = 0x2B \<or> hd S = 0x2D) then tl S else S);
          hex = (2 \<le> length S1 \<and> S1 ! 0 = 0x30 \<and> (S1 ! 1 = 0x78 \<or> S1 ! 1 = 0x58));
          R = (if hex then 16 else 10);
          S2 = (if hex then drop 2 S1 else S1);
          Z = takeWhile (isRadixDigit R) S2
      in if Z = [] then None else Some (sign * mathInt R Z))"

section \<open>The page as the validator sees it\<close>

text \<open>
  The constructor of \<open>FormValidator\<close> looks up the form, the success view, seven input
  elements and seven error-display elements; each lookup may give \<^verbatim>\<open>null\<close>, here
  \<open>None\<close>. Reading a property of \<^verbatim>\<open>null\<close> throws a \<^verbatim>\<open>TypeError\<close>. A call
  that throws returns \<open>Inl TypeError\<close> and no state: nothing below observes the page
  after a fault.
\<close>

datatype js_error = TypeError

datatype fieldName = fullName | email | password | confirmPassword | age | phone | terms

text \<open>
  An input element: its current value and checkedness, its class list, and the defaults
  that the page's markup declares, to which \<^verbatim>\<open>form.reset()\<close> returns it. The markup
  is not part of \<^verbatim>\<open>script.js\<close>, so the defaults are components of the state.
  \<open>fieldValue\<close> is the property \<^verbatim>\<open>value\<close>, and \<open>fieldElements\<close> below is the
  object \<^verbatim>\<open>this.fields\<close>.
\<close>

record element =
  fieldValue :: jsstring
  checked :: bool
  classList :: "jsstring list"
  defaultValue :: jsstring
  defaultChecked :: bool

record errorElement =
  textContent :: jsstring

record view =
  display :: jsstring

text \<open>
  \<open>timers\<close> holds the delays of the pending \<^verbatim>\<open>setTimeout\<close> callbacks in the order
  they were scheduled; every callback the validator schedules is
  \<^verbatim>\<open>() => this.resetForm()\<close>. Scrolling and focus are not part of the state.
\<close>

record validator =
  form :: "view option"
  formSuccess :: "view option"
  fieldElements :: "fieldName \<Rightarrow> element option"
  errorElements :: "fieldName \<Rightarrow> errorElement option"
  timers :: "nat list"

text \<open>\<^verbatim>\<open>classList.add\<close> and \<^verbatim>\<open>classList.remove\<close> of one token.\<close>

definition classList_add :: "jsstring \<Rightarrow> jsstring list \<Rightarrow> jsstring list" where
  "classList_add t cl = (if t \<in> set cl then cl else cl @ [t])"

definition classList_remove :: "jsstring \<Rightarrow> jsstring list \<Rightarrow> jsstring list" where
  "classList_remove t cl = filter (\<lambda>x. x \<noteq> t) cl"

section \<open>FormValidator\<close>

subsection \<open>Display helpers\<close>

definition showError :: "fieldName \<Rightarrow> jsstring \<Rightarrow> validator \<Rightarrow> validator" where
  "showError fieldName message s =
     (let s1 = (case fieldElements s fieldName of
                  None \<Rightarrow> s
                | Some field \<Rightarrow> s\<lparr>fieldElements := (fieldElements s)(fieldName \<mapsto>
                    field\<lparr>classList :=
                      classList_remove (js ''success'') (classList_add (js ''error'') (classList field))\<rparr>)\<rparr>)
      in (case errorElements s1 fieldName of
            None \<Rightarrow> s1
          | Some errorEl \<Rightarrow> s1\<lparr>errorElements := (errorElements s1)(fieldName \<mapsto>
              errorEl\<lparr>textContent := message\<rparr>)\<rparr>))"

text \<open>
  The class body declares \<open>showSuccess\<close> twice: \<^verbatim>\<open>showSuccess(fieldName)\<close> at lines
  576-588 and \<^verbatim>\<open>showSuccess()\<close> at lines 612-624. A class body defines its methods
  on the prototype in textual order, so the second definition replaces the first, and
  every call \<^verbatim>\<open>this.showSuccess(...)\<close>, with or without an argument, runs the second.
  \<open>showSuccess_shadowed\<close> is the first declaration, which no call reaches.
\<close>

definition showSuccess_shadowed :: "fieldName \<Rightarrow> validator \<Rightarrow> validator" where
  "showSuccess_shadowed fieldName s =
     (let s1 = (case fieldElements s fieldName of
                  None \<Rightarrow> s
                | Some field \<Rightarrow> s\<lparr>fieldElements := (fieldElements s)(fieldName \<mapsto>
                    field\<lparr>classList :=
                      classList_remove (js ''error'') (classList_add (js ''success'') (classList field))\<rparr>)\<rparr>)
      in (case errorElements s1 fieldName of
            None \<Rightarrow> s1
          | Some errorEl \<Rightarrow> s1\<lparr>errorElements := (errorElements s1)(fieldName \<mapsto>
              errorEl\<lparr>textContent := []\<rparr>)\<rparr>))"

text \<open>
  The second declaration, the one in force: it hides the form, shows the success view and
  schedules \<open>resetForm\<close> after 5000 ms. It faults when the form or the success view is
  \<^verbatim>\<open>null\<close>. An argument passed to it is ignored.
\<close>

definition showSuccess :: "validator \<Rightarrow> js_error + validator" where
  "showSuccess s =
     (case form s of
        None \<Rightarrow> Inl TypeError
      | Some f \<Rightarrow>
         (case formSuccess s of
            None \<Rightarrow> Inl TypeError
          | Some g \<Rightarrow>
              Inr (s\<lparr>form := Some (f\<lparr>display := js ''none''\<rparr>),
                     formSuccess := Some (g\<lparr>display := js ''block''\<rparr>),
                     timers := timers s @ [5000]\<rparr>)))"

definition clearError :: "fieldName \<Rightarrow> validator \<Rightarrow> validator" where
  "clearError fieldName s =
     (let s1 = (case fieldElements s fieldName of
                  None \<Rightarrow> s
                | Some field \<Rightarrow> s\<lparr>fieldElements := (fieldElements s)(fieldName \<mapsto>
                    field\<lparr>classList :=
                      classList_remove (js ''success'') (classList_remove (js ''error'') (classList field))\<rparr>)\<rparr>)
      in (case errorElements s1 fieldName of
            None \<Rightarrow> s1
          | Some errorEl \<Rightarrow> s1\<lparr>errorElements := (errorElements s1)(fieldName \<mapsto>
              errorEl\<lparr>textContent := []\<rparr>)\<rparr>))"

text \<open>The tail of a validator that found no violation: \<^verbatim>\<open>this.showSuccess(name); return true\<close>.\<close>

definition succeed :: "validator \<Rightarrow> js_error + bool \<times> validator" where
  "succeed s = (case showSuccess s of Inl e \<Rightarrow> Inl e | Inr s' \<Rightarrow> Inr (True, s'))"

text \<open>The tail of a failed check: \<^verbatim>\<open>this.showError(name, message); return false\<close>.\<close>

definition fail :: "fieldName \<Rightarrow> jsstring \<Rightarrow> validator \<Rightarrow> js_error + bool \<times> validator" where
  "fail fieldName message s = Inr (False, showError fieldName message s)"

subsection \<open>The seven field validators\<close>

definition validateFullName :: "validator \<Rightarrow> js_error + bool \<times> validator" where
  "validateFullName s =
     (case fieldElements s fullName of
        None \<Rightarrow> Inl TypeError
      | Some field \<Rightarrow>
         (let v = trim (fieldValue field) in
          if v = [] then fail fullName (js ''Full name is required'') s
          else if length v < 2 then fail fullName (js ''Full name must be at least 2 characters'') s
          else if \<not> nameRegex_test v
            then fail fullName (js ''Full name can only contain letters and spaces'') s
          else succeed s))"

definition validateEmail :: "validator \<Rightarrow> js_error + bool \<times> validator" where
  "validateEmail s =
     (case fieldElements s email of
        None \<Rightarrow> Inl TypeError
      | Some field \<Rightarrow>
         (let v = trim (fieldValue field) in
          if v = [] then fail email (js ''Email address is required'') s
          else if \<not> emailRegex_test v then fail email (js ''Please enter a valid email address'') s
          else succeed s))"

definition validatePassword :: "validator \<Rightarrow> js_error + bool \<times> validator" where
  "validatePassword s =
     (case fieldElements s password of
        None \<Rightarrow> Inl TypeError
      | Some field \<Rightarrow>
         (let v = fieldValue field in
          if v = [] then fail password (js ''Password is required'') s
          else if length v < 8
            then fail password (js ''Password must be at least 8 characters long'') s
          else if \<not> hasUpperCase v
            then fail password (js ''Password must contain at least one uppercase letter'') s
          else if \<not> hasLowerCase v
            then fail password (js ''Password must contain at least one lowercase letter'') s
          else if \<not> hasNumbers v
            then fail password (js ''Password must contain at least one number'') s
          else if \<not> hasSpecialChar v
            then fail password (js ''Password must contain at least one special character'') s
          else succeed s))"

definition validateConfirmPassword :: "validator \<Rightarrow> js_error + bool \<times> validator" where
  "validateConfirmPassword s =
     (case fieldElements s confirmPassword of
        None \<Rightarrow> Inl TypeError
      | Some field \<Rightarrow>
         (case fieldElements s password of
            None \<Rightarrow> Inl TypeError
          | Some passwordField \<Rightarrow>
             (let v = fieldValue field; passwordValue = fieldValue passwordField in
              if v = [] then fail confirmPassword (js ''Please confirm your password'') s
              else if v \<noteq> passwordValue then fail confirmPassword (js ''Passwords do not match'') s
              else succeed s)))"

definition validateAge :: "validator \<Rightarrow> js_error + bool \<times> validator" where
  "validateAge s =
     (case fieldElements s age of
        None \<Rightarrow> Inl TypeError
      | Some field \<Rightarrow>
         (let v = parseInt (fieldValue field) in
          if fieldValue field = [] then fail age (js ''Age is required'') s
          else (case v of
                  None \<Rightarrow> fail age (js ''Please enter a valid age'') s
                | Some n \<Rightarrow>
                    if n < 13 then fail age (js ''You must be at least 13 years old'') s
                    else if n > 120 then fail age (js ''Please enter a valid age'') s
                    else succeed s)))"

definition validatePhone :: "validator \<Rightarrow> js_error + bool \<times> validator" where
  "validatePhone s =
     (case fieldElements s phone of
        None \<Rightarrow> Inl TypeError
      | Some field \<Rightarrow>
         (let v = trim (fieldValue field) in
          if v = [] then Inr (True, clearError phone s)
          else if length (digitsOnly v) < 10
            then fail phone (js ''Phone number must have at least 10 digits'') s
          else if length (digitsOnly v) > 15 then fail phone (js ''Phone number is too long'') s
          else succeed s))"

definition validateTerms :: "validator \<Rightarrow> js_error + bool \<times> validator" where
  "validateTerms s =
     (case fieldElements s terms of
        None \<Rightarrow> Inl TypeError
      | Some field \<Rightarrow>
          if \<not> checked field then fail terms (js ''You must agree to the Terms and Conditions'') s
          else Inr (True, clearError terms s))"

subsection \<open>Validating the whole form\<close>

text \<open>Sequencing of calls that may throw: the first fault ends the computation.\<close>

definition andThen :: "js_error + 'a \<Rightarrow> ('a \<Rightarrow> js_error + 'b) \<Rightarrow> js_error + 'b" where
  "andThen r k = (case r of Inl e \<Rightarrow> Inl e | Inr x \<Rightarrow> k x)"

text \<open>
  The array literal calls the seven validators from left to right, each on the state the
  previous one left; \<^verbatim>\<open>every\<close> then tests each collected outcome against \<^verbatim>\<open>true\<close>.
\<close>

definition validateAllFields :: "validator \<Rightarrow> js_error + bool \<times> validator" where
  "validateAllFields s =
     andThen (validateFullName s) (\<lambda>(v1, s1).
     andThen (validateEmail s1) (\<lambda>(v2, s2).
     andThen (validatePassword s2) (\<lambda>(v3, s3).
     andThen (validateConfirmPassword s3) (\<lambda>(v4, s4).
     andThen (validateAge s4) (\<lambda>(v5, s5).
     andThen (validatePhone s5) (\<lambda>(v6, s6).
     andThen (validateTerms s6) (\<lambda>(v7, s7).
       Inr (list_all (\<lambda>validation. validation = True) [v1, v2, v3, v4, v5, v6, v7], s7))))))))"

text \<open>
  \<open>showFormErrors\<close> only scrolls to and focuses the first element of class
  \<^verbatim>\<open>error\<close>; nothing of the state changes.
\<close>

definition showFormErrors :: "validator \<Rightarrow> validator" where
  "showFormErrors s = s"

definition handleSubmit :: "validator \<Rightarrow> js_error + validator" where
  "handleSubmit s =
     andThen (validateAllFields s) (\<lambda>(isValid, s1).
       if isValid then showSuccess s1 else Inr (showFormErrors s1))"

subsection \<open>Resetting\<close>

text \<open>
  \<^verbatim>\<open>this.form.reset()\<close>: every control of the form returns to the default its markup
  declares. The seven inputs are taken to be controls of the form.
\<close>

definition form_reset :: "validator \<Rightarrow> js_error + validator" where
  "form_reset s =
     (case form s of
        None \<Rightarrow> Inl TypeError
      | Some f \<Rightarrow>
          Inr (s\<lparr>fieldElements := (\<lambda>n. map_option
                 (\<lambda>field. field\<lparr>fieldValue := defaultValue field, checked := defaultChecked field\<rparr>)
                 (fieldElements s n))\<rparr>))"

text \<open>\<^verbatim>\<open>Object.keys(this.fields)\<close>: the keys in the order the constructor wrote them.\<close>

definition fieldNames :: "fieldName list" where
  "fieldNames = [fullName, email, password, confirmPassword, age, phone, terms]"

definition resetForm :: "validator \<Rightarrow> js_error + validator" where
  "resetForm s =
     andThen (form_reset s) (\<lambda>s1.
       let s2 = foldl (\<lambda>st fieldName. clearError fieldName st) s1 fieldNames in
       (case form s2 of
          None \<Rightarrow> Inl TypeError
        | Some f \<Rightarrow>
           (case formSuccess s2 of
              None \<Rightarrow> Inl TypeError
            | Some g \<Rightarrow>
                Inr (s2\<lparr>form := Some (f\<lparr>display := js ''block''\<rparr>),
                        formSuccess := Some (g\<lparr>display := js ''none''\<rparr>)\<rparr>))))"

text \<open>
  The oldest pending timer fires and runs its callback, \<open>resetForm\<close>; \<open>runTimers\<close>
  lets every pending timer fire, oldest first.
\<close>

definition fireTimer :: "validator \<Rightarrow> js_error + validator" where
  "fireTimer s = (case timers s of [] \<Rightarrow> Inr s | d # ds \<Rightarrow> resetForm (s\<lparr>timers := ds\<rparr>))"

fun runTimers :: "nat \<Rightarrow> validator \<Rightarrow> js_error + validator" where
  "runTimers 0 s = Inr s"
| "runTimers (Suc k) s = andThen (fireTimer s) (runTimers k)"

subsection \<open>Observations and sample pages\<close>

text \<open>The three visual states of a field, read off its class list.\<close>

definition isUnvalidated :: "element \<Rightarrow> bool" where
  "isUnvalidated field \<longleftrightarrow>
     js ''error'' \<notin> set (classList field) \<and> js ''success'' \<notin> set (classList field)"

definition isSuccess :: "element \<Rightarrow> bool" where
  "isSuccess field \<longleftrightarrow>
     js ''success'' \<in> set (classList field) \<and> js ''error'' \<notin> set (classList field)"

definition isError :: "element \<Rightarrow> bool" where
  "isError field \<longleftrightarrow>
     js ''error'' \<in> set (classList field) \<and> js ''success'' \<notin> set (classList field)"

text \<open>The message a field's error slot shows, when the slot exists.\<close>

definition message :: "validator \<Rightarrow> fieldName \<Rightarrow> jsstring option" where
  "message s n = map_option textContent (errorElements s n)"

text \<open>
  A page on which every element the constructor looks up exists: the form is shown, the
  success view hidden, no field carries a class, and no markup default is declared (the
  value of a checkbox is its \<^verbatim>\<open>value\<close> attribute, which a reset leaves as it is).
  The arguments are the seven values, the state of the checkbox and the seven messages
  shown.
\<close>

definition registrationPage ::
  "(fieldName \<Rightarrow> jsstring) \<Rightarrow> bool \<Rightarrow> (fieldName \<Rightarrow> jsstring) \<Rightarrow> validator" where
  "registrationPage vals chk msgs =
     \<lparr>form = Some \<lparr>display = js ''block''\<rparr>,
      formSuccess = Some \<lparr>display = js ''none''\<rparr>,
      fieldElements = (\<lambda>n. Some \<lparr>fieldValue = vals n, checked = chk, classList = [],
                                  defaultValue = (if n = terms then vals n else []),
                                  defaultChecked = False\<rparr>),
      errorElements = (\<lambda>n. Some \<lparr>textContent = msgs n\<rparr>),
      timers = []\<rparr>"

text \<open>Sample values that satisfy every rule.\<close>

fun goodValues :: "fieldName \<Rightarrow> jsstring" where
  "goodValues fullName = js ''Ada Lovelace''"
| "goodValues email = js ''ada@example.org''"
| "goodValues password = js ''Abcdef1!''"
| "goodValues confirmPassword = js ''Abcdef1!''"
| "goodValues age = js ''36''"
| "goodValues phone = js ''+44 20 7946 0958''"
| "goodValues terms = js ''on''"

definition pageWith :: "fieldName \<Rightarrow> jsstring \<Rightarrow> validator" where
  "pageWith n v = registrationPage (goodValues(n := v)) True (\<lambda>k. [])"

text \<open>What a call returned, and what a field and its error slot look like after it.\<close>

definition outcome :: "js_error + bool \<times> validator \<Rightarrow> js_error + bool" where
  "outcome r = (case r of Inl e \<Rightarrow> Inl e | Inr (b, s') \<Rightarrow> Inr b)"

definition messageAfter :: "fieldName \<Rightarrow> js_error + bool \<times> validator \<Rightarrow> jsstring option" where
  "messageAfter n r = (case r of Inl e \<Rightarrow> None | Inr (b, s') \<Rightarrow> message s' n)"

definition fieldAfter :: "fieldName \<Rightarrow> js_error + bool \<times> validator \<Rightarrow> element option" where
  "fieldAfter n r = (case r of Inl e \<Rightarrow> None | Inr (b, s') \<Rightarrow> fieldElements s' n)"

text \<open>The page with the value of one field replaced.\<close>

definition setValue :: "fieldName \<Rightarrow> jsstring \<Rightarrow> validator \<Rightarrow> validator" where
  "setValue n v s =
     s\<lparr>fieldElements := (fieldElements s)
          (n := map_option (\<lambda>field. field\<lparr>fieldValue := v\<rparr>) (fieldElements s n))\<rparr>"

text \<open>
  The per-field validate operation of each field: the method that
  \<open>addRealTimeValidation\<close> attaches to the field (on \<^verbatim>\<open>blur\<close>, for the checkbox
  on \<^verbatim>\<open>change\<close>) and that \<open>validateAllFields\<close> calls.
\<close>

fun validateField :: "fieldName \<Rightarrow> validator \<Rightarrow> js_error + bool \<times> validator" where
  "validateField fullName = validateFullName"
| "validateField email = validateEmail"
| "validateField password = validatePassword"
| "validateField confirmPassword = validateConfirmPassword"
| "validateField age = validateAge"
| "validateField phone = validatePhone"
| "validateField terms = validateTerms"

text \<open>
  The validators of a list of fields run one after the other, each on the state the
  previous one left, collecting the outcomes; \<open>validateAllFields\<close> is this run over the
  seven fields in the order of its array literal.
\<close>

fun validateEach :: "fieldName list \<Rightarrow> validator \<Rightarrow> js_error + bool list \<times> validator" where
  "validateEach [] s = Inr ([], s)"
| "validateEach (n # ns) s =
     andThen (validateField n s) (\<lambda>(v, s1).
     andThen (validateEach ns s1) (\<lambda>(vs, s2). Inr (v # vs, s2)))"

text \<open>The page with every rule satisfied and nothing validated yet.\<close>

definition goodPage :: validator where
  "goodPage = registrationPage goodValues True (\<lambda>k. [])"

text \<open>
  The same page after \<open>validateConfirmPassword\<close> had found the confirmation unequal to
  an earlier content of the password field: the confirmation carries the class
  \<^verbatim>\<open>error\<close> and its slot shows the mismatch message. Since then the password has
  been brought to the value of the confirmation.
\<close>

definition stalePage :: validator where
  "stalePage = showError confirmPassword (js ''Passwords do not match'') goodPage"

text \<open>The good page on which the element of one field is missing.\<close>

definition pageWithout :: "fieldName \<Rightarrow> validator" where
  "pageWithout n = goodPage\<lparr>fieldElements := (fieldElements goodPage)(n := None)\<rparr>"

text \<open>
  Two states have the same controls when every input element exists in both or in
  neither, with the same value, checkedness and defaults, and the form and the success
  view exist in both or in neither.
\<close>

definition sameControls :: "validator \<Rightarrow> validator \<Rightarrow> bool" where
  "sameControls s s' \<longleftrightarrow>
     (\<forall>n. map_option fieldValue (fieldElements s' n) = map_option fieldValue (fieldElements s n) \<and>
          map_option checked (fieldElements s' n) = map_option checked (fieldElements s n) \<and>
          map_option defaultValue (fieldElements s' n) =
            map_option defaultValue (fieldElements s n) \<and>
          map_option defaultChecked (fieldElements s' n) =
            map_option defaultChecked (fieldElements s n)) \<and>
     (form s' = None \<longleftrightarrow> form s = None) \<and>
     (formSuccess s' = None \<longleftrightarrow> formSuccess s = None)"

text \<open>The form, the success view and the seven input elements all exist.\<close>

definition allPresent :: "validator \<Rightarrow> bool" where
  "allPresent s \<longleftrightarrow>
     form s \<noteq> None \<and> formSuccess s \<noteq> None \<and>
     list_all (\<lambda>n. fieldElements s n \<noteq> None) fieldNames"

text \<open>
  The initial form state: the six text fields are empty, the checkbox is unchecked, no
  field carries a validation class, every error slot that exists is empty, the form is
  shown and the success view is hidden.
\<close>

definition initialField :: "fieldName \<Rightarrow> element \<Rightarrow> bool" where
  "initialField n field \<longleftrightarrow>
     isUnvalidated field \<and> (if n = terms then \<not> checked field else fieldValue field = [])"

definition initialForm :: "validator \<Rightarrow> bool" where
  "initialForm s \<longleftrightarrow>
     list_all (\<lambda>n. case fieldElements s n of None \<Rightarrow> False | Some field \<Rightarrow> initialField n field)
       fieldNames \<and>
     list_all (\<lambda>n. case errorElements s n of None \<Rightarrow> True | Some slot \<Rightarrow> textContent slot = [])
       fieldNames \<and>
     map_option display (form s) = Some (js ''block'') \<and>
     map_option display (formSuccess s) = Some (js ''none'')"

text \<open>
  The markup declares no default: no \<^verbatim>\<open>value\<close> attribute on the six text fields and
  no \<^verbatim>\<open>checked\<close> attribute on the checkbox.
\<close>

definition noDefaults :: "validator \<Rightarrow> bool" where
  "noDefaults s \<longleftrightarrow>
     list_all (\<lambda>n. case fieldElements s n of
                     None \<Rightarrow> True
                   | Some field \<Rightarrow>
                       if n = terms then \<not> defaultChecked field else defaultValue field = [])
       fieldNames"

section \<open>The rules as the specification words them\<close>

text \<open>
  The ordered sub-rules of the password field, each with the message of its violation, and
  the message of the first sub-rule a value violates.
\<close>

definition passwordSubRules :: "((jsstring \<Rightarrow> bool) \<times> jsstring) list" where
  "passwordSubRules =
     [(\<lambda>v. v \<noteq> [], js ''Password is required''),
      (\<lambda>v. 8 \<le> length v, js ''Password must be at least 8 characters long''),
      (\<lambda>v. \<exists>c \<in> set v. isUpper c, js ''Password must contain at least one uppercase letter''),
      (\<lambda>v. \<exists>c \<in> set v. isLower c, js ''Password must contain at least one lowercase letter''),
      (\<lambda>v. \<exists>c \<in> set v. isDigit c, js ''Password must contain at least one number''),
      (\<lambda>v. \<exists>c \<in> set v. isSpecial c,
         js ''Password must contain at least one special character'')]"

definition firstViolated :: "(('a \<Rightarrow> bool) \<times> jsstring) list \<Rightarrow> 'a \<Rightarrow> jsstring option" where
  "firstViolated rules v = map_option snd (find (\<lambda>rule. \<not> fst rule v) rules)"

text \<open>
  The age rule: the raw text is not empty, it parses, and the parsed integer lies between
  13 and 120. \<open>decimal n\<close> is the decimal numeral of \<open>n\<close>.
\<close>

definition ageRule :: "jsstring \<Rightarrow> bool" where
  "ageRule v \<longleftrightarrow>
     v \<noteq> [] \<and> (case parseInt v of None \<Rightarrow> False | Some n \<Rightarrow> 13 \<le> n \<and> n \<le> 120)"

fun decimal :: "nat \<Rightarrow> jsstring" where
  "decimal n = (if n < 10 then [0x30 + word_of_nat n]
                else decimal (n div 10) @ [0x30 + word_of_nat (n mod 10)])"

declare decimal.simps [simp del]

text \<open>
  The rule of each field as a function of what it may read: the field's own value, for
  the checkbox its checkedness, and for the confirmation the current password value.
\<close>

fun fieldRule :: "fieldName \<Rightarrow> jsstring \<Rightarrow> bool \<Rightarrow> jsstring \<Rightarrow> bool" where
  "fieldRule fullName v chk pw \<longleftrightarrow>
     trim v \<noteq> [] \<and> 2 \<le> length (trim v) \<and>
     (\<forall>c \<in> set (trim v). isLower c \<or> isUpper c \<or> isWhiteSpace c)"
| "fieldRule email v chk pw \<longleftrightarrow> trim v \<noteq> [] \<and> emailRegex_test (trim v)"
| "fieldRule password v chk pw \<longleftrightarrow> firstViolated passwordSubRules v = None"
| "fieldRule confirmPassword v chk pw \<longleftrightarrow> v \<noteq> [] \<and> v = pw"
| "fieldRule age v chk pw \<longleftrightarrow> ageRule v"
| "fieldRule phone v chk pw \<longleftrightarrow>
     trim v = [] \<or> (10 \<le> length (digitsOnly v) \<and> length (digitsOnly v) \<le> 15)"
| "fieldRule terms v chk pw \<longleftrightarrow> chk"

text \<open>The current value of the password field (empty when the element is missing).\<close>

definition passwordValue :: "validator \<Rightarrow> jsstring" where
  "passwordValue s = (case fieldElements s password of None \<Rightarrow> [] | Some field \<Rightarrow> fieldValue field)"

text \<open>The good page with the checkbox not checked.\<close>

definition uncheckedPage :: validator where
  "uncheckedPage = registrationPage goodValues False (\<lambda>k. [])"

section \<open>Effects of the display helpers\<close>

lemma showError_sel:
  "form (showError n m s) = form s"
  "formSuccess (showError n m s) = formSuccess s"
  "timers (showError n m s) = timers s"
  "fieldElements (showError n m s) k =
     (if k = n then map_option (\<lambda>field. field\<lparr>classList :=
         classList_remove (js ''success'') (classList_add (js ''error'') (classList field))\<rparr>)
         (fieldElements s n)
      else fieldElements s k)"
  "errorElements (showError n m s) k =
     (if k = n then map_option (\<lambda>slot. slot\<lparr>textContent := m\<rparr>) (errorElements s n)
      else errorElements s k)"
  by (simp_all add: showError_def Let_def split: option.splits)

lemma clearError_sel:
  "form (clearError n s) = form s"
  "formSuccess (clearError n s) = formSuccess s"
  "timers (clearError n s) = timers s"
  "fieldElements (clearError n s) k =
     (if k = n then map_option (\<lambda>field. field\<lparr>classList :=
         classList_remove (js ''success'') (classList_remove (js ''error'') (classList field))\<rparr>)
         (fieldElements s n)
      else fieldElements s k)"
  "errorElements (clearError n s) k =
     (if k = n then map_option (\<lambda>slot. slot\<lparr>textContent := []\<rparr>) (errorElements s n)
      else errorElements s k)"
  by (simp_all add: clearError_def Let_def split: option.splits)

lemma succeed_Inr:
  "form s = Some f \<Longrightarrow> formSuccess s = Some g \<Longrightarrow>
   \<exists>s'. succeed s = Inr (True, s') \<and> fieldElements s' = fieldElements s \<and>
        errorElements s' = errorElements s"
  by (simp add: succeed_def showSuccess_def)

lemma message_fail:
  "errorElements s n = Some slot \<Longrightarrow> \<exists>s'. fail n m s = Inr (False, s') \<and> message s' n = Some m"
  by (simp add: fail_def message_def showError_sel)

lemma outcome_fail: "outcome (fail n m s) = Inr False"
  by (simp add: outcome_def fail_def)

lemma outcome_succeed:
  "form s = Some f \<Longrightarrow> formSuccess s = Some g \<Longrightarrow> outcome (succeed s) = Inr True"
  by (simp add: outcome_def succeed_def showSuccess_def)

lemma pageWith_sel:
  "form (pageWith n v) = Some \<lparr>display = js ''block''\<rparr>"
  "formSuccess (pageWith n v) = Some \<lparr>display = js ''none''\<rparr>"
  "fieldElements (pageWith n v) k =
     Some \<lparr>fieldValue = (if k = n then v else goodValues k), checked = True, classList = [],
           defaultValue = (if k = terms then (if k = n then v else goodValues k) else []),
           defaultChecked = False\<rparr>"
  "errorElements (pageWith n v) k = Some \<lparr>textContent = []\<rparr>"
  "timers (pageWith n v) = []"
  by (simp_all add: pageWith_def registrationPage_def)

section \<open>The password sub-rules\<close>

text \<open>
  Claim C4. For every password value, on a page that has the password field, its error
  slot, the form and the success view, \<open>validatePassword\<close> checks the sub-rules in the
  order required, length at least 8, uppercase, lowercase, digit, special character: it
  returns true exactly when no sub-rule is violated, and otherwise the error slot shows
  the message of the first violated sub-rule, whatever later sub-rules are violated too.
  The password \<^verbatim>\<open>a\<close> gets the length message, not the uppercase one.
\<close>

theorem validatePassword_first_violation:
  assumes "fieldElements s password = Some field" and "errorElements s password = Some slot"
    and "form s = Some f" and "formSuccess s = Some g"
  shows "(\<exists>s'. validatePassword s =
                Inr (firstViolated passwordSubRules (fieldValue field) = None, s') \<and>
              (\<forall>m. firstViolated passwordSubRules (fieldValue field) = Some m \<longrightarrow>
                   message s' password = Some m)) \<and>
         firstViolated passwordSubRules (js ''a'') =
           Some (js ''Password must be at least 8 characters long'')"
proof -
  have "firstViolated passwordSubRules (js ''a'') =
          Some (js ''Password must be at least 8 characters long'')"
    by (simp add: firstViolated_def passwordSubRules_def js_def)
  moreover have "\<exists>s'. validatePassword s =
                Inr (firstViolated passwordSubRules (fieldValue field) = None, s') \<and>
              (\<forall>m. firstViolated passwordSubRules (fieldValue field) = Some m \<longrightarrow>
                   message s' password = Some m)"
    using assms message_fail [OF assms(2)] succeed_Inr [OF assms(3,4)]
    unfolding validatePassword_def firstViolated_def passwordSubRules_def
    by (simp add: Let_def hasUpperCase_def hasLowerCase_def hasNumbers_def hasSpecialChar_def
          list_ex_iff not_le) auto
  ultimately show ?thesis by simp
qed

theorem validatePassword_first_violation_witness:
  "outcome (validatePassword (pageWith password (js ''a''))) = Inr False \<and>
   messageAfter password (validatePassword (pageWith password (js ''a''))) =
     Some (js ''Password must be at least 8 characters long'') \<and>
   outcome (validatePassword (pageWith password (js ''Abcdef1!''))) = Inr True"
proof -
  have b: "firstViolated passwordSubRules (js ''Abcdef1!'') = None"
    by (simp add: firstViolated_def passwordSubRules_def js_def isUpper_def isLower_def
          isDigit_def isSpecial_def specialChars_def)
  note t = validatePassword_first_violation
             [OF pageWith_sel(3) pageWith_sel(4) pageWith_sel(1) pageWith_sel(2)]
  from t [of password "js ''a''"]
  have 1: "outcome (validatePassword (pageWith password (js ''a''))) = Inr False \<and>
        messageAfter password (validatePassword (pageWith password (js ''a''))) =
          Some (js ''Password must be at least 8 characters long'')"
    by (auto simp add: outcome_def messageAfter_def)
  from t [of password "js ''Abcdef1!''"] b
  have 2: "outcome (validatePassword (pageWith password (js ''Abcdef1!''))) = Inr True"
    by (auto simp add: outcome_def)
  from 1 2 show ?thesis by simp
qed

section \<open>Facts about strings\<close>

lemma isDigit_not_space: "isDigit c \<Longrightarrow> \<not> isWhiteSpace c"
  unfolding isDigit_def isWhiteSpace_def
  by (auto simp: word_le_nat_alt)

lemma filter_dropWhile_other:
  "(\<And>x. P x \<Longrightarrow> \<not> Q x) \<Longrightarrow> filter P (dropWhile Q xs) = filter P xs"
  by (induction xs) auto

lemma digitsOnly_trim: "digitsOnly (trim v) = digitsOnly v"
  by (simp add: digitsOnly_def trim_def rev_filter [symmetric] filter_dropWhile_other
        isDigit_not_space)

lemma trim_idem: "trim (trim v) = trim v"
proof -
  define u where "u = dropWhile isWhiteSpace v"
  define w where "w = dropWhile isWhiteSpace (rev u)"
  have w: "w = [] \<or> \<not> isWhiteSpace (hd w)"
    unfolding w_def by (metis hd_dropWhile)
  have u: "u = [] \<or> \<not> isWhiteSpace (hd u)"
    unfolding u_def by (metis hd_dropWhile)
  obtain p where p: "rev u = p @ w"
    unfolding w_def by (metis takeWhile_dropWhile_id)
  have "rev w = [] \<or> \<not> isWhiteSpace (hd (rev w))"
  proof (cases "w = []")
    case True then show ?thesis by simp
  next
    case False
    from p have "u = rev w @ rev p" by (metis rev_append rev_rev_ident)
    with False have "hd (rev w) = hd u" "u \<noteq> []" by simp_all
    with u show ?thesis by simp
  qed
  then have 1: "dropWhile isWhiteSpace (rev w) = rev w"
    by (simp add: dropWhile_eq_self_iff)
  have 2: "dropWhile isWhiteSpace w = w"
    using w by (simp add: dropWhile_eq_self_iff)
  show ?thesis
    unfolding trim_def u_def [symmetric] w_def [symmetric] by (simp add: 1 2)
qed

subsection \<open>parseInt on decimal numerals\<close>

lemma digit_unit:
  assumes "d < 10"
  shows "isDigit (0x30 + word_of_nat d) \<and> digitValue (0x30 + word_of_nat d) = Some d"
proof -
  have u: "unat (0x30 + word_of_nat d :: code_unit) = 48 + d"
    using assms by (simp add: unat_word_ariths unat_of_nat)
  have "isDigit (0x30 + word_of_nat d)"
    unfolding isDigit_def word_le_nat_alt u using assms by simp
  then show ?thesis by (simp add: digitValue_def u)
qed

lemma decimal_digits: "list_all isDigit (decimal n) \<and> decimal n \<noteq> []"
proof (induction n rule: decimal.induct)
  case (1 n)
  show ?case
  proof (cases "n < 10")
    case True
    then show ?thesis
      by (subst decimal.simps, subst (2) decimal.simps) (simp add: digit_unit)
  next
    case False
    with 1 show ?thesis
      by (subst decimal.simps, subst (2) decimal.simps) (simp add: digit_unit)
  qed
qed

lemma mathInt_snoc:
  "mathInt R (z @ [c]) =
     mathInt R z * int R + int (case digitValue c of None \<Rightarrow> 0 | Some d \<Rightarrow> d)"
  by (simp add: mathInt_def)

lemma mathInt_decimal: "mathInt 10 (decimal n) = int n"
proof (induction n rule: decimal.induct)
  case (1 n)
  show ?case
  proof (cases "n < 10")
    case True
    then show ?thesis by (subst decimal.simps) (simp add: mathInt_def digit_unit)
  next
    case False
    with 1 have "mathInt 10 (decimal (n div 10)) = int (n div 10)" by simp
    with False show ?thesis
      by (subst decimal.simps) (simp add: mathInt_snoc digit_unit zdiv_int zmod_int)
  qed
qed

lemma isDigit_radix10: "isDigit c \<Longrightarrow> isRadixDigit 10 c"
  by (auto simp: isRadixDigit_def digitValue_def isDigit_def word_le_nat_alt)

lemma parseInt_digits:
  assumes "list_all isDigit z" and "z \<noteq> []"
  shows "parseInt z = Some (mathInt 10 z)"
proof -
  obtain c cs where z: "z = c # cs" using assms(2) by (cases z) auto
  have c: "isDigit c" using assms(1) z by simp
  have nows: "dropWhile isWhiteSpace z = z" using z c isDigit_not_space by simp
  have nosign: "c \<noteq> 0x2B" "c \<noteq> 0x2D" using c by (auto simp: isDigit_def)
  have nohex: "\<not> (2 \<le> length z \<and> z ! 0 = 0x30 \<and> (z ! 1 = 0x78 \<or> z ! 1 = 0x58))"
  proof
    assume h: "2 \<le> length z \<and> z ! 0 = 0x30 \<and> (z ! 1 = 0x78 \<or> z ! 1 = 0x58)"
    then have "isDigit (z ! 1)" using assms(1) by (simp add: list_all_length)
    with h show False by (auto simp: isDigit_def)
  qed
  have tw: "takeWhile (isRadixDigit 10) z = z"
    using assms(1) by (simp add: list_all_iff isDigit_radix10)
  have hdz: "hd z \<noteq> 0x2B" "hd z \<noteq> 0x2D" using nosign z by simp_all
  have hexF: "(2 \<le> length z \<and> z ! 0 = 0x30 \<and> (z ! 1 = 0x78 \<or> z ! 1 = 0x58)) = False"
    using nohex by blast
  have S1: "(if z \<noteq> [] \<and> (hd z = 0x2B \<or> hd z = 0x2D) then tl z else z) = z"
    using hdz by simp
  have sign: "(if z \<noteq> [] \<and> hd z = 0x2D then - 1 else 1 :: int) = 1"
    using hdz by simp
  show ?thesis
    unfolding parseInt_def nows Let_def S1 sign hexF using assms(2)
    by (simp add: tw)
qed

lemma parseInt_decimal: "parseInt (decimal n) = Some (int n)"
  using parseInt_digits [of "decimal n"] decimal_digits [of n] mathInt_decimal [of n] by simp

section \<open>The age rule\<close>

text \<open>
  Claim C5. On a page that has the age field, the form and the success view,
  \<open>validateAge\<close> returns false when the raw text is empty, false when \<^verbatim>\<open>parseInt\<close>
  finds no integer, false when the integer is below 13 or above 120, and true otherwise.
  For the decimal numeral of any \<open>n\<close> the outcome is true exactly when \<open>13 \<le> n \<le> 120\<close>:
  13 and 120 are valid, 12 and 121 are not.
\<close>

theorem validateAge_rule:
  assumes "fieldElements s age = Some field" and "form s = Some f" and "formSuccess s = Some g"
  shows "outcome (validateAge s) = Inr (ageRule (fieldValue field)) \<and>
         (\<forall>n. ageRule (decimal n) \<longleftrightarrow> 13 \<le> n \<and> n \<le> 120) \<and>
         ageRule (js ''13'') \<and> ageRule (js ''120'') \<and>
         \<not> ageRule (js ''12'') \<and> \<not> ageRule (js ''121'')"
proof -
  have 1: "outcome (validateAge s) = Inr (ageRule (fieldValue field))"
    using assms outcome_succeed [OF assms(2,3)]
    by (simp add: validateAge_def ageRule_def Let_def outcome_fail split: option.splits)
  have 2: "ageRule (decimal n) \<longleftrightarrow> 13 \<le> n \<and> n \<le> 120" for n
    using decimal_digits by (simp add: ageRule_def parseInt_decimal)
  have 3: "decimal 13 = js ''13''" "decimal 120 = js ''120''"
    "decimal 12 = js ''12''" "decimal 121 = js ''121''"
    by (simp_all add: decimal.simps js_def)
  have 4: "ageRule (js ''13'')" "ageRule (js ''120'')"
    "\<not> ageRule (js ''12'')" "\<not> ageRule (js ''121'')"
    using 2 [of 13] 2 [of 120] 2 [of 12] 2 [of 121] by (simp_all add: 3)
  from 1 2 4 show ?thesis by simp
qed

theorem validateAge_rule_witness:
  "outcome (validateAge (pageWith age (js ''13''))) = Inr True \<and>
   outcome (validateAge (pageWith age (js ''120''))) = Inr True \<and>
   outcome (validateAge (pageWith age (js ''12''))) = Inr False \<and>
   outcome (validateAge (pageWith age (js ''121''))) = Inr False"
proof -
  note t = validateAge_rule [OF pageWith_sel(3) pageWith_sel(1) pageWith_sel(2)]
  from t [of age "js ''13''"] t [of age "js ''120''"] t [of age "js ''12''"]
    t [of age "js ''121''"]
  show ?thesis by simp
qed

section \<open>The confirmation rule\<close>

text \<open>
  Claim C6. On a page that has both password fields, the confirmation's error slot, the
  form and the success view, \<open>validateConfirmPassword\<close> returns false with the required
  message when the confirmation is empty; returns false with the mismatch message when
  the confirmation is not empty and differs from the current password value; and, for a
  confirmation that is not empty, returns true exactly when the two strings are equal.
  With password \<^verbatim>\<open>Abcdef1!\<close> and confirmation \<^verbatim>\<open>Abcdef1\<close> the confirmation is
  invalid with the mismatch message, while the password itself is valid.
\<close>

theorem validateConfirmPassword_rule:
  assumes "fieldElements s confirmPassword = Some field"
    and "fieldElements s password = Some passwordField"
    and "errorElements s confirmPassword = Some slot"
    and "form s = Some f" and "formSuccess s = Some g"
  shows "(fieldValue field = [] \<longrightarrow>
            outcome (validateConfirmPassword s) = Inr False \<and>
            messageAfter confirmPassword (validateConfirmPassword s) =
              Some (js ''Please confirm your password'')) \<and>
         (fieldValue field \<noteq> [] \<and> fieldValue field \<noteq> fieldValue passwordField \<longrightarrow>
            outcome (validateConfirmPassword s) = Inr False \<and>
            messageAfter confirmPassword (validateConfirmPassword s) =
              Some (js ''Passwords do not match'')) \<and>
         (fieldValue field \<noteq> [] \<longrightarrow>
            (outcome (validateConfirmPassword s) = Inr True \<longleftrightarrow>
             fieldValue field = fieldValue passwordField)) \<and>
         outcome (validateConfirmPassword (pageWith confirmPassword (js ''Abcdef1''))) =
           Inr False \<and>
         messageAfter confirmPassword
           (validateConfirmPassword (pageWith confirmPassword (js ''Abcdef1''))) =
           Some (js ''Passwords do not match'') \<and>
         outcome (validatePassword (pageWith confirmPassword (js ''Abcdef1''))) = Inr True"
proof -
  have general: "(fieldValue field' = [] \<longrightarrow>
            outcome (validateConfirmPassword s') = Inr False \<and>
            messageAfter confirmPassword (validateConfirmPassword s') =
              Some (js ''Please confirm your password'')) \<and>
         (fieldValue field' \<noteq> [] \<and> fieldValue field' \<noteq> fieldValue passwordField' \<longrightarrow>
            outcome (validateConfirmPassword s') = Inr False \<and>
            messageAfter confirmPassword (validateConfirmPassword s') =
              Some (js ''Passwords do not match'')) \<and>
         (fieldValue field' \<noteq> [] \<longrightarrow>
            (outcome (validateConfirmPassword s') = Inr True \<longleftrightarrow>
             fieldValue field' = fieldValue passwordField'))"
    if "fieldElements s' confirmPassword = Some field'"
      and "fieldElements s' password = Some passwordField'"
      and "errorElements s' confirmPassword = Some slot'"
      and "form s' = Some f'" and "formSuccess s' = Some g'"
    for s' field' passwordField' slot' f' g'
    using that outcome_succeed [OF that(4,5)]
    by (simp add: validateConfirmPassword_def Let_def outcome_fail fail_def messageAfter_def
          message_def showError_sel outcome_def)
  note ex = general [OF pageWith_sel(3) pageWith_sel(3) pageWith_sel(4) pageWith_sel(1)
      pageWith_sel(2), of confirmPassword "js ''Abcdef1''"]
  have ne: "js ''Abcdef1'' \<noteq> []" "js ''Abcdef1'' \<noteq> js ''Abcdef1!''"
    by (simp_all add: js_def)
  have pw: "outcome (validatePassword (pageWith confirmPassword (js ''Abcdef1''))) = Inr True"
    by (simp add: validatePassword_def pageWith_sel Let_def outcome_succeed js_def
          hasUpperCase_def hasLowerCase_def hasNumbers_def hasSpecialChar_def
          isUpper_def isLower_def isDigit_def isSpecial_def specialChars_def)
  from general [OF assms] ex ne pw show ?thesis by simp
qed

theorem validateConfirmPassword_rule_witness:
  "outcome (validateConfirmPassword (pageWith confirmPassword (js ''Abcdef1!''))) = Inr True \<and>
   outcome (validateConfirmPassword (pageWith confirmPassword (js ''''))) = Inr False \<and>
   messageAfter confirmPassword (validateConfirmPassword (pageWith confirmPassword (js ''''))) =
     Some (js ''Please confirm your password'')"
proof -
  note t = validateConfirmPassword_rule [OF pageWith_sel(3) pageWith_sel(3) pageWith_sel(4)
      pageWith_sel(1) pageWith_sel(2)]
  have ne: "js ''Abcdef1!'' \<noteq> []" by (simp add: js_def)
  from t [of confirmPassword "js ''Abcdef1!''"] t [of confirmPassword "js ''''"] ne
  show ?thesis by (simp add: js_def)
qed

section \<open>The phone rule\<close>

text \<open>
  Claim C7 as stated says that a phone value which is not empty is judged by its digit
  count alone. The source trims the value first, so a value of white space only, which is
  not empty and has no digit, is accepted: the claim fails at the value of one space.
\<close>

theorem validatePhone_blank_counterexample:
  "outcome (validatePhone (pageWith phone (js '' ''))) = Inr True \<and>
   outcome (validatePhone (pageWith phone (js '' ''))) \<noteq>
     Inr (js '' '' = [] \<or>
          (10 \<le> length (digitsOnly (js '' '')) \<and> length (digitsOnly (js '' '')) \<le> 15))"
  by (simp add: validatePhone_def pageWith_sel Let_def outcome_def trim_def js_def
        isWhiteSpace_def digitsOnly_def isDigit_def)

text \<open>
  Claim C7, amended. On a page that has the phone field, the form and the success view,
  \<open>validatePhone\<close> returns true when the phone value is empty after trimming white
  space from both ends; otherwise it returns true exactly when the number of digits left
  after removing every non-digit character of the value is at least 10 and at most 15.
  Ten digits are valid and nine are not.
\<close>

theorem validatePhone_rule:
  assumes "fieldElements s phone = Some field" and "form s = Some f" and "formSuccess s = Some g"
  shows "outcome (validatePhone s) =
           Inr (trim (fieldValue field) = [] \<or>
                (10 \<le> length (digitsOnly (fieldValue field)) \<and>
                 length (digitsOnly (fieldValue field)) \<le> 15)) \<and>
         outcome (validatePhone (pageWith phone (js ''0123456789''))) = Inr True \<and>
         outcome (validatePhone (pageWith phone (js ''012345678''))) = Inr False"
proof -
  have general: "outcome (validatePhone s') =
           Inr (trim (fieldValue field') = [] \<or>
                (10 \<le> length (digitsOnly (fieldValue field')) \<and>
                 length (digitsOnly (fieldValue field')) \<le> 15))"
    if "fieldElements s' phone = Some field'" and "form s' = Some f'"
      and "formSuccess s' = Some g'" for s' field' f' g'
    using that outcome_succeed [OF that(2,3)]
    by (simp add: validatePhone_def Let_def outcome_fail digitsOnly_trim)
       (simp add: outcome_def)
  note ex = general [OF pageWith_sel(3) pageWith_sel(1) pageWith_sel(2)]
  have d10: "length (digitsOnly (js ''0123456789'')) = 10"
    by (simp add: digitsOnly_def js_def isDigit_def)
  have d9: "length (digitsOnly (js ''012345678'')) = 9" "trim (js ''012345678'') \<noteq> []"
    by (simp_all add: digitsOnly_def js_def isDigit_def trim_def isWhiteSpace_def)
  from general [OF assms] ex [of phone "js ''0123456789''"] ex [of phone "js ''012345678''"]
    d10 d9
  show ?thesis by simp
qed

theorem validatePhone_rule_witness:
  "outcome (validatePhone (pageWith phone (js ''+44 20 7946 0958''))) = Inr True \<and>
   outcome (validatePhone (pageWith phone (js ''555-0100''))) = Inr False \<and>
   outcome (validatePhone (pageWith phone (js ''''))) = Inr True"
proof -
  note t = validatePhone_rule [OF pageWith_sel(3) pageWith_sel(1) pageWith_sel(2)]
  have 1: "length (digitsOnly (js ''+44 20 7946 0958'')) = 12"
    by (simp add: digitsOnly_def js_def isDigit_def)
  have 2: "length (digitsOnly (js ''555-0100'')) = 7" "trim (js ''555-0100'') \<noteq> []"
    by (simp_all add: digitsOnly_def js_def isDigit_def trim_def isWhiteSpace_def)
  have 3: "trim (js '''') = []"
    by (simp add: trim_def js_def)
  from t [of phone "js ''+44 20 7946 0958''"] t [of phone "js ''555-0100''"]
    t [of phone "js ''''"] 1 2 3
  show ?thesis by simp
qed

section \<open>Raw and trimmed values\<close>

lemma setValue_sel:
  "form (setValue n v s) = form s"
  "formSuccess (setValue n v s) = formSuccess s"
  "errorElements (setValue n v s) = errorElements s"
  "timers (setValue n v s) = timers s"
  "fieldElements (setValue n v s) k =
     (if k = n then map_option (\<lambda>field. field\<lparr>fieldValue := v\<rparr>) (fieldElements s n)
      else fieldElements s k)"
  by (simp_all add: setValue_def)

lemma outcome_succeed_setValue: "outcome (succeed (setValue n v s)) = outcome (succeed s)"
  by (simp add: outcome_def succeed_def showSuccess_def setValue_sel split: option.splits)

lemma outcome_Inr: "outcome (Inr (b, s)) = Inr b"
  by (simp add: outcome_def)

text \<open>
  Claim C10. \<open>validatePassword\<close> and \<open>validateConfirmPassword\<close> judge the raw values:
  the length test counts every code unit of the password, white space included, and the
  confirmation is valid only when it equals the raw password. \<open>validateFullName\<close>,
  \<open>validateEmail\<close> and \<open>validatePhone\<close> judge the trimmed value: a value and its
  trimmed form always get the same outcome. The password of a space followed by
  \<^verbatim>\<open>Abcde1!\<close> is valid although its trimmed form has 7 code units and is not, and the
  trimmed form does not confirm it.
\<close>

theorem raw_password_trimmed_others:
  assumes "fieldElements s password \<noteq> None" and "fieldElements s confirmPassword \<noteq> None"
    and "form s \<noteq> None" and "formSuccess s \<noteq> None"
  shows "outcome (validatePassword (setValue password p s)) =
           Inr (p \<noteq> [] \<and> 8 \<le> length p \<and> hasUpperCase p \<and> hasLowerCase p \<and>
                hasNumbers p \<and> hasSpecialChar p) \<and>
         outcome (validateConfirmPassword (setValue confirmPassword c (setValue password p s))) =
           Inr (c \<noteq> [] \<and> c = p) \<and>
         outcome (validateFullName (setValue fullName (trim v) s)) =
           outcome (validateFullName (setValue fullName v s)) \<and>
         outcome (validateEmail (setValue email (trim v) s)) =
           outcome (validateEmail (setValue email v s)) \<and>
         outcome (validatePhone (setValue phone (trim v) s)) =
           outcome (validatePhone (setValue phone v s)) \<and>
         outcome (validatePassword (pageWith password (js '' Abcde1!''))) = Inr True \<and>
         outcome (validatePassword (pageWith password (trim (js '' Abcde1!'')))) = Inr False \<and>
         outcome (validateConfirmPassword (setValue confirmPassword (trim (js '' Abcde1!''))
           (pageWith password (js '' Abcde1!'')))) = Inr False"
proof -
  obtain pf cf f g where el: "fieldElements s password = Some pf"
    "fieldElements s confirmPassword = Some cf" "form s = Some f" "formSuccess s = Some g"
    using assms by auto
  have ok: "outcome (succeed s') = Inr True" if "form s' = form s" "formSuccess s' = formSuccess s"
    for s'
    using that el outcome_succeed [of s' f g] by simp
  have 1: "outcome (validatePassword (setValue password p s)) =
           Inr (p \<noteq> [] \<and> 8 \<le> length p \<and> hasUpperCase p \<and> hasLowerCase p \<and>
                hasNumbers p \<and> hasSpecialChar p)"
    using el by (simp add: validatePassword_def setValue_sel Let_def outcome_fail ok)
  have 2: "outcome (validateConfirmPassword (setValue confirmPassword c (setValue password p s))) =
           Inr (c \<noteq> [] \<and> c = p)"
    using el by (simp add: validateConfirmPassword_def setValue_sel Let_def outcome_fail ok)
  have 3: "outcome (validateFullName (setValue fullName (trim v) s)) =
           outcome (validateFullName (setValue fullName v s))"
    by (cases "fieldElements s fullName")
       (simp_all add: validateFullName_def setValue_sel Let_def trim_idem outcome_fail
          outcome_succeed_setValue)
  have 4: "outcome (validateEmail (setValue email (trim v) s)) =
           outcome (validateEmail (setValue email v s))"
    by (cases "fieldElements s email")
       (simp_all add: validateEmail_def setValue_sel Let_def trim_idem outcome_fail
          outcome_succeed_setValue)
  have 5: "outcome (validatePhone (setValue phone (trim v) s)) =
           outcome (validatePhone (setValue phone v s))"
    by (cases "fieldElements s phone")
       (simp_all add: validatePhone_def setValue_sel Let_def trim_idem outcome_fail
          outcome_succeed_setValue outcome_Inr)
  have t: "trim (js '' Abcde1!'') = js ''Abcde1!''"
    by (simp add: trim_def js_def isWhiteSpace_def)
  have 6: "outcome (validatePassword (pageWith password (js '' Abcde1!''))) = Inr True"
    by (simp add: validatePassword_def pageWith_sel Let_def outcome_succeed js_def
          hasUpperCase_def hasLowerCase_def hasNumbers_def hasSpecialChar_def
          isUpper_def isLower_def isDigit_def isSpecial_def specialChars_def)
  have 7: "outcome (validatePassword (pageWith password (js ''Abcde1!''))) = Inr False"
    by (simp add: validatePassword_def pageWith_sel Let_def outcome_fail js_def)
  have 8: "outcome (validateConfirmPassword (setValue confirmPassword (js ''Abcde1!'')
           (pageWith password (js '' Abcde1!'')))) = Inr False"
    by (simp add: validateConfirmPassword_def pageWith_sel setValue_sel Let_def outcome_fail
          js_def)
  from 1 2 3 4 5 6 7 8 show ?thesis by (simp add: t)
qed

theorem raw_password_trimmed_others_witness:
  "outcome (validatePassword (setValue password (js ''Abcdef1! '') (pageWith age (js ''36'')))) =
     Inr True \<and>
   outcome (validateConfirmPassword (setValue confirmPassword (js ''Abcdef1!'')
     (setValue password (js ''Abcdef1! '') (pageWith age (js ''36''))))) = Inr False \<and>
   outcome (validateFullName (setValue fullName (js ''  Ada  '') (pageWith age (js ''36'')))) =
     outcome (validateFullName (setValue fullName (trim (js ''  Ada  ''))
       (pageWith age (js ''36''))))"
proof -
  have h: "fieldElements (pageWith age (js ''36'')) password \<noteq> None"
    "fieldElements (pageWith age (js ''36'')) confirmPassword \<noteq> None"
    "form (pageWith age (js ''36'')) \<noteq> None" "formSuccess (pageWith age (js ''36'')) \<noteq> None"
    by (simp_all add: pageWith_sel)
  have p: "js ''Abcdef1! '' \<noteq> [] \<and> 8 \<le> length (js ''Abcdef1! '') \<and>
     hasUpperCase (js ''Abcdef1! '') \<and> hasLowerCase (js ''Abcdef1! '') \<and>
     hasNumbers (js ''Abcdef1! '') \<and> hasSpecialChar (js ''Abcdef1! '')"
    by (simp add: js_def hasUpperCase_def hasLowerCase_def hasNumbers_def hasSpecialChar_def
          isUpper_def isLower_def isDigit_def isSpecial_def specialChars_def)
  have c: "js ''Abcdef1!'' \<noteq> js ''Abcdef1! ''" by (simp add: js_def)
  from raw_password_trimmed_others [OF h, of "js ''Abcdef1! ''" "js ''Abcdef1!''" "js ''  Ada  ''"]
    p c
  show ?thesis by simp
qed

section \<open>What a validator does to the page\<close>

lemma js_nonempty: "js (c # cs) \<noteq> []"
  by (simp add: js_def)

lemma showError_ex: "m \<noteq> [] \<Longrightarrow> \<exists>m'. m' \<noteq> [] \<and> showError n m s = showError n m' s"
  by blast

text \<open>
  Every validator that completes either showed an error, or cleared the field (the
  checkbox, and the phone field when blank), or ran \<open>showSuccess\<close>.
\<close>

lemma validateField_cases:
  assumes "validateField n s = Inr (b, s')"
  shows "fieldElements s n \<noteq> None \<and>
         ((\<not> b \<and> (\<exists>m. m \<noteq> [] \<and> s' = showError n m s)) \<or>
          (b \<and> s' = clearError n s \<and>
             (n = terms \<or> n = phone \<and>
                (\<exists>field. fieldElements s phone = Some field \<and> trim (fieldValue field) = []))) \<or>
          (b \<and> showSuccess s = Inr s' \<and> n \<noteq> terms \<and>
             (n = phone \<longrightarrow>
                (\<exists>field. fieldElements s phone = Some field \<and> trim (fieldValue field) \<noteq> []))))"
proof (cases n)
  case fullName
  with assms show ?thesis
    by (auto simp: validateFullName_def Let_def fail_def succeed_def js_nonempty
          intro!: showError_ex split: option.splits if_splits sum.splits)
next
  case email
  with assms show ?thesis
    by (auto simp: validateEmail_def Let_def fail_def succeed_def js_nonempty
          intro!: showError_ex split: option.splits if_splits sum.splits)
next
  case password
  with assms show ?thesis
    by (auto simp: validatePassword_def Let_def fail_def succeed_def js_nonempty
          intro!: showError_ex split: option.splits if_splits sum.splits)
next
  case confirmPassword
  with assms show ?thesis
    by (auto simp: validateConfirmPassword_def Let_def fail_def succeed_def js_nonempty
          intro!: showError_ex split: option.splits if_splits sum.splits)
next
  case age
  with assms show ?thesis
    by (auto simp: validateAge_def Let_def fail_def succeed_def js_nonempty
          intro!: showError_ex split: option.splits if_splits sum.splits)
next
  case phone
  with assms show ?thesis
    by (auto simp: validatePhone_def Let_def fail_def succeed_def js_nonempty
          intro!: showError_ex split: option.splits if_splits sum.splits)
next
  case terms
  with assms show ?thesis
    by (auto simp: validateTerms_def Let_def fail_def js_nonempty
          intro!: showError_ex split: option.splits if_splits)
qed

lemma sameControls_refl: "sameControls s s"
  by (simp add: sameControls_def)

lemma sameControls_trans: "sameControls s s' \<Longrightarrow> sameControls s' s'' \<Longrightarrow> sameControls s s''"
  by (simp add: sameControls_def)

lemma sameControls_showError: "sameControls s (showError n m s)"
  by (auto simp: sameControls_def showError_sel option.map_comp comp_def)

lemma sameControls_clearError: "sameControls s (clearError n s)"
  by (auto simp: sameControls_def clearError_sel option.map_comp comp_def)

lemma sameControls_showSuccess: "showSuccess s = Inr s' \<Longrightarrow> sameControls s s'"
  by (auto simp: sameControls_def showSuccess_def split: option.splits)

lemma validateField_sameControls:
  "validateField n s = Inr (b, s') \<Longrightarrow> sameControls s s'"
  using validateField_cases [of n s b s']
  by (auto simp: sameControls_showError sameControls_clearError sameControls_showSuccess)

lemma sameControls_field:
  assumes "sameControls s s'"
  shows "(fieldElements s' n = None \<longleftrightarrow> fieldElements s n = None)"
    and "fieldElements s n = Some field \<Longrightarrow>
         \<exists>field'. fieldElements s' n = Some field' \<and> fieldValue field' = fieldValue field \<and>
                  checked field' = checked field \<and> defaultValue field' = defaultValue field \<and>
                  defaultChecked field' = defaultChecked field"
proof -
  from assms have h: "map_option fieldValue (fieldElements s' n) = map_option fieldValue (fieldElements s n)"
    "map_option checked (fieldElements s' n) = map_option checked (fieldElements s n)"
    "map_option defaultValue (fieldElements s' n) = map_option defaultValue (fieldElements s n)"
    "map_option defaultChecked (fieldElements s' n) = map_option defaultChecked (fieldElements s n)"
    by (simp_all add: sameControls_def)
  from h(1) show "(fieldElements s' n = None \<longleftrightarrow> fieldElements s n = None)"
    by (metis option.map_disc_iff)
  assume "fieldElements s n = Some field"
  with h show "\<exists>field'. fieldElements s' n = Some field' \<and> fieldValue field' = fieldValue field \<and>
                  checked field' = checked field \<and> defaultValue field' = defaultValue field \<and>
                  defaultChecked field' = defaultChecked field"
    by (cases "fieldElements s' n") auto
qed

lemma sameControls_succeed:
  assumes "sameControls s s'"
  shows "outcome (succeed s') = outcome (succeed s)"
proof -
  from assms have "(form s' = None \<longleftrightarrow> form s = None)" "(formSuccess s' = None \<longleftrightarrow> formSuccess s = None)"
    by (simp_all add: sameControls_def)
  then show ?thesis
    by (auto simp: outcome_def succeed_def showSuccess_def split: option.splits)
qed

text \<open>The outcome of a validator depends on the controls only.\<close>

lemma sameControls_outcome:
  assumes "sameControls s s'"
  shows "outcome (validateField n s') = outcome (validateField n s)"
proof -
  have none: "outcome (validateField n s') = outcome (validateField n s)"
    if "fieldElements s n = None"
  proof -
    from that sameControls_field(1) [OF assms, of n] have "fieldElements s' n = None" by simp
    with that show ?thesis
      by (cases n)
         (simp_all add: validateFullName_def validateEmail_def validatePassword_def
            validateConfirmPassword_def validateAge_def validatePhone_def validateTerms_def)
  qed
  have some: "outcome (validateField n s') = outcome (validateField n s)"
    if f: "fieldElements s n = Some field" for field
  proof -
    from sameControls_field(2) [OF assms f] obtain field' where
      f': "fieldElements s' n = Some field'" "fieldValue field' = fieldValue field"
      "checked field' = checked field"
      by blast
    note su = sameControls_succeed [OF assms]
    show ?thesis
    proof (cases n)
      case fullName
      with f f' su show ?thesis
        by (simp add: validateFullName_def Let_def outcome_fail)
    next
      case email
      with f f' su show ?thesis
        by (simp add: validateEmail_def Let_def outcome_fail)
    next
      case password
      with f f' su show ?thesis
        by (simp add: validatePassword_def Let_def outcome_fail)
    next
      case confirmPassword
      show ?thesis
      proof (cases "fieldElements s password")
        case None
        with sameControls_field(1) [OF assms, of password]
        have "fieldElements s' password = None" by simp
        with None f f' confirmPassword show ?thesis
          by (simp add: validateConfirmPassword_def)
      next
        case (Some pf)
        from sameControls_field(2) [OF assms Some] obtain pf' where
          "fieldElements s' password = Some pf'" "fieldValue pf' = fieldValue pf"
          by blast
        with Some f f' su confirmPassword show ?thesis
          by (simp add: validateConfirmPassword_def Let_def outcome_fail)
      qed
    next
      case age
      with f f' su show ?thesis
        by (simp add: validateAge_def Let_def outcome_fail split: option.splits)
    next
      case phone
      with f f' su show ?thesis
        by (simp add: validatePhone_def Let_def outcome_fail outcome_Inr)
    next
      case terms
      with f f' su show ?thesis
        by (simp add: validateTerms_def Let_def outcome_fail outcome_Inr)
    qed
  qed
  from none some show ?thesis by (cases "fieldElements s n") auto
qed

section \<open>Validating the whole form\<close>

lemma andThen_Inr: "andThen r k = Inr y \<longleftrightarrow> (\<exists>x. r = Inr x \<and> k x = Inr y)"
  by (cases r) (simp_all add: andThen_def)

lemma validateAllFields_validateEach:
  "validateAllFields s =
     andThen (validateEach fieldNames s) (\<lambda>(vs, s'). Inr (list_all (\<lambda>v. v = True) vs, s'))"
  by (simp add: validateAllFields_def fieldNames_def andThen_def split: sum.splits prod.splits)

lemma outcome_Inr_iff: "outcome r = Inr b \<longleftrightarrow> (\<exists>s'. r = Inr (b, s'))"
  by (cases r) (auto simp: outcome_def)

text \<open>
  No short-circuit: when each validator, run on the state at hand, completes with some
  outcome, the run over a list completes with exactly these outcomes, in order.
\<close>

lemma validateEach_outcome:
  assumes "\<And>n. n \<in> set ns \<Longrightarrow> outcome (validateField n s) = Inr (v n)"
  shows "\<exists>s'. validateEach ns s = Inr (map v ns, s') \<and> sameControls s s'"
  using assms
proof (induction ns arbitrary: s)
  case Nil
  then show ?case by (simp add: sameControls_refl)
next
  case (Cons n ns)
  from Cons.prems [of n] obtain s1 where 1: "validateField n s = Inr (v n, s1)"
    by (auto simp: outcome_Inr_iff)
  then have sc: "sameControls s s1" by (rule validateField_sameControls)
  have "outcome (validateField k s1) = Inr (v k)" if "k \<in> set ns" for k
    using sameControls_outcome [OF sc, of k] Cons.prems [of k] that by simp
  from Cons.IH [OF this] obtain s' where
    2: "validateEach ns s1 = Inr (map v ns, s')" "sameControls s1 s'"
    by blast
  from 1 2 sc show ?case
    by (auto simp: andThen_def intro: sameControls_trans)
qed

lemma validateEach_Inr:
  assumes "validateEach ns s = Inr (vs, s')"
  shows "sameControls s s' \<and> vs = map (\<lambda>n. outcome (validateField n s) = Inr True) ns \<and>
         (\<forall>n \<in> set ns. fieldElements s n \<noteq> None \<and> (\<exists>b. outcome (validateField n s) = Inr b))"
  using assms
proof (induction ns arbitrary: s vs)
  case Nil
  then show ?case by (simp add: sameControls_refl)
next
  case (Cons n ns)
  from Cons.prems obtain v s1 vs' where
    1: "validateField n s = Inr (v, s1)" and 2: "validateEach ns s1 = Inr (vs', s')"
    and 3: "vs = v # vs'"
    by (auto simp: andThen_Inr)
  from 1 have sc: "sameControls s s1" by (rule validateField_sameControls)
  from 1 have o: "outcome (validateField n s) = Inr v" by (simp add: outcome_def)
  from 1 have p: "fieldElements s n \<noteq> None" using validateField_cases [OF 1] by simp
  note ih = Cons.IH [OF 2]
  have eq: "outcome (validateField k s1) = outcome (validateField k s)" for k
    by (rule sameControls_outcome [OF sc])
  have pres: "(fieldElements s1 k = None) = (fieldElements s k = None)" for k
    using sameControls_field(1) [OF sc, of k] by simp
  from ih have ih2: "sameControls s1 s'"
    "vs' = map (\<lambda>n. outcome (validateField n s) = Inr True) ns"
    "\<forall>n \<in> set ns. fieldElements s n \<noteq> None \<and> (\<exists>b. outcome (validateField n s) = Inr b)"
    by (simp_all add: eq pres)
  from sc ih2(1) have "sameControls s s'" by (rule sameControls_trans)
  with ih2 o p 3 show ?case by simp
qed

text \<open>
  The returned flag is the conjunction of the seven outcomes, each as its validator gives
  it on the state at the call.
\<close>

lemma validateAllFields_conjunction:
  assumes "validateAllFields s = Inr (b, s')"
  shows "b = (\<forall>n. outcome (validateField n s) = Inr True) \<and> sameControls s s' \<and>
         (\<forall>n. fieldElements s n \<noteq> None)"
proof -
  from assms obtain vs where e: "validateEach fieldNames s = Inr (vs, s')"
    and b: "b = list_all (\<lambda>v. v = True) vs"
    by (auto simp: validateAllFields_validateEach andThen_Inr)
  have all: "n \<in> set fieldNames" for n
    by (cases n) (simp_all add: fieldNames_def)
  from validateEach_Inr [OF e] b all show ?thesis
    by (auto simp: list_all_iff)
qed

lemma validateAllFields_outcome:
  assumes "\<And>n. outcome (validateField n s) = Inr (v n)"
  shows "\<exists>s'. validateAllFields s = Inr (list_all v fieldNames, s') \<and> sameControls s s'"
proof -
  from validateEach_outcome [of fieldNames s v] assms obtain s' where
    "validateEach fieldNames s = Inr (map v fieldNames, s')" "sameControls s s'"
    by blast
  then show ?thesis
    by (auto simp: validateAllFields_validateEach andThen_def list_all_iff)
qed

text \<open>
  A field whose rule holds, other than the checkbox and the blank phone field, keeps the
  content of its error slot through the run: its validator ends in the \<open>showSuccess\<close> in
  force, which writes no slot.
\<close>

lemma validateField_other_slot:
  assumes "validateField k s = Inr (b, s')" and "k \<noteq> n"
  shows "errorElements s' n = errorElements s n"
  using validateField_cases [OF assms(1)] assms(2)
  by (auto simp: showError_sel clearError_sel showSuccess_def split: option.splits)

lemma validateField_valid_slot:
  assumes "validateField n s = Inr (True, s')" and "n \<noteq> terms"
    and "n = phone \<longrightarrow> (\<exists>field. fieldElements s phone = Some field \<and> trim (fieldValue field) \<noteq> [])"
  shows "errorElements s' n = errorElements s n"
  using validateField_cases [OF assms(1)] assms(2,3)
  by (auto simp: showSuccess_def split: option.splits)

lemma validateEach_valid_slot:
  assumes "validateEach ns s = Inr (vs, s')"
    and "outcome (validateField n s) = Inr True" and "n \<noteq> terms"
    and "n = phone \<longrightarrow> (\<exists>field. fieldElements s phone = Some field \<and> trim (fieldValue field) \<noteq> [])"
  shows "errorElements s' n = errorElements s n"
  using assms
proof (induction ns arbitrary: s vs)
  case Nil
  then show ?case by simp
next
  case (Cons k ns)
  from Cons.prems(1) obtain v s1 vs' where
    1: "validateField k s = Inr (v, s1)" and 2: "validateEach ns s1 = Inr (vs', s')"
    by (auto simp: andThen_Inr)
  from 1 have sc: "sameControls s s1" by (rule validateField_sameControls)
  have step: "errorElements s1 n = errorElements s n"
  proof (cases "k = n")
    case False
    with 1 show ?thesis by (rule validateField_other_slot)
  next
    case True
    with 1 Cons.prems(2) have "validateField n s = Inr (True, s1)"
      by (simp add: outcome_def)
    then show ?thesis using Cons.prems(3,4) by (rule validateField_valid_slot)
  qed
  have o: "outcome (validateField n s1) = Inr True"
    using sameControls_outcome [OF sc, of n] Cons.prems(2) by simp
  have ph: "n = phone \<longrightarrow>
      (\<exists>field. fieldElements s1 phone = Some field \<and> trim (fieldValue field) \<noteq> [])"
  proof
    assume n: "n = phone"
    with Cons.prems(4) obtain field where
      f: "fieldElements s phone = Some field" "trim (fieldValue field) \<noteq> []"
      by blast
    from sameControls_field(2) [OF sc f(1)] f(2)
    show "\<exists>field. fieldElements s1 phone = Some field \<and> trim (fieldValue field) \<noteq> []"
      by auto
  qed
  from Cons.IH [OF 2 o Cons.prems(3) ph] step show ?case by simp
qed

lemma validateAllFields_valid_slot:
  assumes "validateAllFields s = Inr (b, s')"
    and "outcome (validateField n s) = Inr True" and "n \<noteq> terms"
    and "n = phone \<longrightarrow> (\<exists>field. fieldElements s phone = Some field \<and> trim (fieldValue field) \<noteq> [])"
  shows "errorElements s' n = errorElements s n"
proof -
  from assms(1) obtain vs where "validateEach fieldNames s = Inr (vs, s')"
    by (auto simp: validateAllFields_validateEach andThen_Inr)
  from validateEach_valid_slot [OF this assms(2,3,4)] show ?thesis .
qed

section \<open>The sample pages\<close>

lemma goodPage_sel:
  "form goodPage = Some \<lparr>display = js ''block''\<rparr>"
  "formSuccess goodPage = Some \<lparr>display = js ''none''\<rparr>"
  "fieldElements goodPage k =
     Some \<lparr>fieldValue = goodValues k, checked = True, classList = [],
           defaultValue = (if k = terms then goodValues k else []), defaultChecked = False\<rparr>"
  "errorElements goodPage k = Some \<lparr>textContent = []\<rparr>"
  "timers goodPage = []"
  by (simp_all add: goodPage_def registrationPage_def)

lemma goodPage_fullName: "outcome (validateFullName goodPage) = Inr True"
  by (simp add: validateFullName_def goodPage_sel Let_def outcome_succeed js_def trim_def
        isWhiteSpace_def nameRegex_test_def isLower_def isUpper_def)

lemma emailRegex_testI:
  assumes "i < j" and "j < length v" and "v ! i = 0x40" and "v ! j = 0x2E"
    and "run1 (take i v)" and "run1 (take (j - Suc i) (drop (Suc i) v))"
    and "run1 (drop (Suc j) v)"
  shows "emailRegex_test v"
  unfolding emailRegex_test_def list_ex_iff using assms
  by (intro bexI [of _ i] bexI [of _ j]) auto

lemma goodPage_email: "outcome (validateEmail goodPage) = Inr True"
proof -
  have t: "trim (js ''ada@example.org'') = js ''ada@example.org''"
    by (simp add: js_def trim_def isWhiteSpace_def)
  have "emailRegex_test (js ''ada@example.org'')"
    by (rule emailRegex_testI [of 3 11])
       (simp_all add: js_def run1_def notSpaceAt_def isWhiteSpace_def)
  then show ?thesis
    by (simp add: validateEmail_def goodPage_sel Let_def outcome_succeed t) (simp add: js_def)
qed

lemma goodPage_password: "outcome (validatePassword goodPage) = Inr True"
  by (simp add: validatePassword_def goodPage_sel Let_def outcome_succeed js_def
        hasUpperCase_def hasLowerCase_def hasNumbers_def hasSpecialChar_def
        isUpper_def isLower_def isDigit_def isSpecial_def specialChars_def)

lemma goodPage_confirmPassword: "outcome (validateConfirmPassword goodPage) = Inr True"
  by (simp add: validateConfirmPassword_def goodPage_sel Let_def outcome_succeed js_def)

lemma goodPage_age: "outcome (validateAge goodPage) = Inr True"
proof -
  have "decimal 36 = js ''36''" by (simp add: decimal.simps js_def)
  with parseInt_decimal [of 36] have "parseInt (js ''36'') = Some 36" by simp
  moreover have "js ''36'' \<noteq> []" by (simp add: js_def)
  ultimately show ?thesis
    by (simp add: validateAge_def goodPage_sel Let_def outcome_succeed)
qed

lemma goodPage_phone: "outcome (validatePhone goodPage) = Inr True"
proof -
  have "trim (js ''+44 20 7946 0958'') \<noteq> []"
    by (simp add: js_def trim_def isWhiteSpace_def)
  moreover have "length (digitsOnly (js ''+44 20 7946 0958'')) = 12"
    by (simp add: digitsOnly_def js_def isDigit_def)
  ultimately show ?thesis
    by (simp add: validatePhone_def goodPage_sel Let_def outcome_succeed digitsOnly_trim)
qed

lemma goodPage_terms: "outcome (validateTerms goodPage) = Inr True"
  by (simp add: validateTerms_def goodPage_sel outcome_Inr)

lemma goodPage_outcome: "outcome (validateField n goodPage) = Inr True"
  by (cases n)
     (simp_all add: goodPage_fullName goodPage_email goodPage_password
        goodPage_confirmPassword goodPage_age goodPage_phone goodPage_terms)

lemma stalePage_outcome: "outcome (validateField n stalePage) = Inr True"
  using sameControls_outcome [OF sameControls_showError, of n confirmPassword _ goodPage]
  by (simp add: stalePage_def goodPage_outcome)

lemma stalePage_message:
  "message stalePage confirmPassword = Some (js ''Passwords do not match'')"
  by (simp add: message_def stalePage_def showError_sel goodPage_sel)

section \<open>Valid fields and their error slots\<close>

text \<open>
  Claim C1 (the code departs from it). On \<open>stalePage\<close> every rule holds, and
  \<open>validateAllFields\<close> returns true; but the slot of the confirmation still shows the
  mismatch message afterwards. The validators end in \<^verbatim>\<open>this.showSuccess(name)\<close>, which
  the first declaration of \<open>showSuccess\<close> would serve by emptying the slot; the second
  declaration replaces it and writes no slot.
\<close>

theorem validateAllFields_keeps_stale_message:
  "outcome (validateAllFields stalePage) = Inr True \<and>
   messageAfter confirmPassword (validateAllFields stalePage) =
     Some (js ''Passwords do not match'')"
proof -
  from validateAllFields_outcome [of stalePage "\<lambda>n. True"] obtain s' where
    r: "validateAllFields stalePage = Inr (True, s')"
    by (auto simp: stalePage_outcome list_all_iff)
  from validateAllFields_valid_slot [OF r stalePage_outcome, of confirmPassword]
  have "errorElements s' confirmPassword = errorElements stalePage confirmPassword"
    by simp
  with r stalePage_message show ?thesis
    by (simp add: outcome_def messageAfter_def message_def)
qed

text \<open>What the first declaration would have done on the same page: the slot is emptied.\<close>

lemma showSuccess_shadowed_empties:
  "message (showSuccess_shadowed confirmPassword stalePage) confirmPassword = Some []"
  by (simp add: message_def showSuccess_shadowed_def stalePage_def showError_sel goodPage_sel
        Let_def)

text \<open>
  Claim C2 (the code departs from it). On \<open>stalePage\<close> with the name \<^verbatim>\<open>Jo3\<close> the
  first validator fails and the call returns false; the later validators still run, and
  the confirmation's rule holds, yet its slot is not written: it shows the mismatch message
  before and after the call. The cause is the one of claim C1.
\<close>

theorem validateAllFields_leaves_valid_slot_unwritten:
  "outcome (validateAllFields (setValue fullName (js ''Jo3'') stalePage)) = Inr False \<and>
   outcome (validateFullName (setValue fullName (js ''Jo3'') stalePage)) = Inr False \<and>
   outcome (validateConfirmPassword (setValue fullName (js ''Jo3'') stalePage)) = Inr True \<and>
   message (setValue fullName (js ''Jo3'') stalePage) confirmPassword =
     Some (js ''Passwords do not match'') \<and>
   messageAfter confirmPassword (validateAllFields (setValue fullName (js ''Jo3'') stalePage)) =
     Some (js ''Passwords do not match'')"
proof -
  let ?s = "setValue fullName (js ''Jo3'') stalePage"
  have fn: "outcome (validateFullName ?s) = Inr False"
    by (simp add: validateFullName_def setValue_sel stalePage_def showError_sel goodPage_sel
          Let_def outcome_fail js_def trim_def isWhiteSpace_def nameRegex_test_def
          isLower_def isUpper_def)
  have others: "outcome (validateField n ?s) = Inr True" if "n \<noteq> fullName" for n
  proof -
    have "outcome (validateField n ?s) = outcome (validateField n stalePage)"
      using that
      by (cases n)
         (simp_all add: validateEmail_def validatePassword_def validateConfirmPassword_def
            validateAge_def validatePhone_def validateTerms_def setValue_sel Let_def
            outcome_fail outcome_Inr outcome_succeed_setValue
            split: option.splits)
    then show ?thesis by (simp add: stalePage_outcome)
  qed
  have all: "outcome (validateField n ?s) = Inr (n \<noteq> fullName)" for n
    using fn others [of n] by (cases "n = fullName") simp_all
  from validateAllFields_outcome [of ?s "\<lambda>n. n \<noteq> fullName", OF all] obtain s' where
    r: "validateAllFields ?s = Inr (False, s')"
    by (auto simp: fieldNames_def)
  have m: "message ?s confirmPassword = Some (js ''Passwords do not match'')"
    using stalePage_message by (simp add: message_def setValue_sel)
  have "errorElements s' confirmPassword = errorElements ?s confirmPassword"
    using validateAllFields_valid_slot [OF r, of confirmPassword] others [of confirmPassword]
    by simp
  with r m fn others [of confirmPassword] show ?thesis
    by (simp add: outcome_def messageAfter_def message_def)
qed

section \<open>Missing elements\<close>

lemma validateField_missing:
  "fieldElements s n = None \<Longrightarrow> validateField n s = Inl TypeError"
  by (cases n)
     (simp_all add: validateFullName_def validateEmail_def validatePassword_def
        validateConfirmPassword_def validateAge_def validatePhone_def validateTerms_def)

text \<open>
  Claim C8 (the code departs from it). \<open>showError\<close> and \<open>clearError\<close> test the field
  and the slot before touching them, and so never fault. The validators read
  \<^verbatim>\<open>this.fields.<name>.value\<close> with no such test: on the page without the
  \<^verbatim>\<open>fullName\<close> element, \<open>validateFullName\<close> throws, and with it
  \<open>validateAllFields\<close> and \<open>handleSubmit\<close>.
\<close>

theorem validateFullName_faults_on_missing_field:
  "validateFullName (pageWithout fullName) = Inl TypeError \<and>
   validateAllFields (pageWithout fullName) = Inl TypeError \<and>
   handleSubmit (pageWithout fullName) = Inl TypeError"
proof -
  have "validateFullName (pageWithout fullName) = Inl TypeError"
    by (simp add: validateFullName_def pageWithout_def)
  then show ?thesis
    by (simp add: validateAllFields_def handleSubmit_def andThen_def)
qed

section \<open>The side effects of one validator\<close>

lemma tokens_differ: "js ''error'' \<noteq> js ''success''"
  by (simp add: js_def)

lemma set_classList_add: "set (classList_add t cl) = insert t (set cl)"
  by (auto simp: classList_add_def)

lemma set_classList_remove: "set (classList_remove t cl) = set cl - {t}"
  by (auto simp: classList_remove_def)

text \<open>
  Claim C3 as stated says that a valid outcome puts the field in the success state. For
  the checkbox the source calls \<open>clearError\<close> instead: on the good page
  \<open>validateTerms\<close> returns true and the checkbox does not carry the success state.
\<close>

theorem validateTerms_not_success_counterexample:
  "outcome (validateTerms goodPage) = Inr True \<and>
   map_option isSuccess (fieldAfter terms (validateTerms goodPage)) = Some False"
  by (simp add: validateTerms_def goodPage_sel outcome_Inr fieldAfter_def clearError_sel
        isSuccess_def set_classList_remove)

text \<open>
  A validator that completes returns the rule of its field, evaluated on the field's
  current value (the checkedness for the checkbox, and the current password value as well
  for the confirmation).
\<close>

lemma validateField_rule:
  assumes "validateField n s = Inr (b, s')"
  shows "\<exists>field. fieldElements s n = Some field \<and>
           b = fieldRule n (fieldValue field) (checked field) (passwordValue s)"
proof (cases n)
  case fullName
  with assms show ?thesis
    by (auto simp: validateFullName_def Let_def fail_def succeed_def nameRegex_test_def
          list_all_iff split: option.splits if_splits sum.splits)
next
  case email
  with assms show ?thesis
    by (auto simp: validateEmail_def Let_def fail_def succeed_def
          split: option.splits if_splits sum.splits)
next
  case password
  with assms show ?thesis
    by (auto simp: validatePassword_def Let_def fail_def succeed_def firstViolated_def
          passwordSubRules_def hasUpperCase_def hasLowerCase_def hasNumbers_def
          hasSpecialChar_def list_ex_iff split: option.splits if_splits sum.splits)
next
  case confirmPassword
  with assms show ?thesis
    by (auto simp: validateConfirmPassword_def Let_def fail_def succeed_def passwordValue_def
          split: option.splits if_splits sum.splits)
next
  case age
  with assms show ?thesis
    by (auto simp: validateAge_def Let_def fail_def succeed_def ageRule_def
          split: option.splits if_splits sum.splits)
next
  case phone
  with assms show ?thesis
    by (auto simp: validatePhone_def Let_def fail_def succeed_def digitsOnly_trim
          split: option.splits if_splits sum.splits)
next
  case terms
  with assms show ?thesis
    by (auto simp: validateTerms_def fail_def split: option.splits if_splits)
qed

text \<open>What the rule of a field reads, and nothing else.\<close>

lemma fieldRule_reads:
  assumes "n \<noteq> terms \<longrightarrow> v' = v" and "n = terms \<longrightarrow> chk' = chk"
    and "n = confirmPassword \<longrightarrow> pw' = pw"
  shows "fieldRule n v' chk' pw' = fieldRule n v chk pw"
  using assms by (cases n) simp_all

text \<open>
  Claim C3, amended. Whenever the validate operation of a field completes, it has
  evaluated only that field's rule against the field's current value (plus the current
  password value for the confirmation) and returns the boolean outcome of the rule: the
  outcome is the same on any other page on which the field has the same value (the
  checkbox the same checkedness; for the confirmation, the password the same value too).
  When the outcome is invalid, or is valid for the checkbox or for a blank phone value,
  the only effect on the page is on that field's class list and that field's error slot:
  the form, the success view, the pending timers, every other field and every other slot
  are as before, and the field keeps its value, checkedness and defaults. An invalid
  outcome leaves the field in the error state and a non-empty message in its slot; a valid
  outcome of the checkbox or of the blank phone field leaves the field unvalidated, not in
  the success state, and its slot empty. Nothing is said here of what a valid outcome of
  the other validators does to the page.
\<close>

theorem validateField_frame:
  assumes "validateField n s = Inr (b, s')"
  shows "(\<exists>field. fieldElements s n = Some field \<and>
            b = fieldRule n (fieldValue field) (checked field) (passwordValue s)) \<and>
         (\<forall>t c t' field fieldT.
            validateField n t = Inr (c, t') \<and>
            fieldElements s n = Some field \<and> fieldElements t n = Some fieldT \<and>
            (n \<noteq> terms \<longrightarrow> fieldValue fieldT = fieldValue field) \<and>
            (n = terms \<longrightarrow> checked fieldT = checked field) \<and>
            (n = confirmPassword \<longrightarrow> passwordValue t = passwordValue s)
            \<longrightarrow> c = b) \<and>
         (\<not> b \<or> n = terms \<or>
          (n = phone \<and>
             (\<exists>field. fieldElements s phone = Some field \<and> trim (fieldValue field) = []))
          \<longrightarrow>
          form s' = form s \<and> formSuccess s' = formSuccess s \<and> timers s' = timers s \<and>
          (\<forall>k. k \<noteq> n \<longrightarrow>
             fieldElements s' k = fieldElements s k \<and> errorElements s' k = errorElements s k) \<and>
          (\<exists>field field'.
             fieldElements s n = Some field \<and> fieldElements s' n = Some field' \<and>
             fieldValue field' = fieldValue field \<and> checked field' = checked field \<and>
             defaultValue field' = defaultValue field \<and>
             defaultChecked field' = defaultChecked field \<and>
             (if b then isUnvalidated field' \<and> \<not> isSuccess field' else isError field')) \<and>
          (errorElements s n = None \<longrightarrow> errorElements s' n = None) \<and>
          (errorElements s n \<noteq> None \<longrightarrow> (\<exists>m. message s' n = Some m \<and> (m = [] \<longleftrightarrow> b))))"
proof (intro conjI)
  show "\<exists>field. fieldElements s n = Some field \<and>
          b = fieldRule n (fieldValue field) (checked field) (passwordValue s)"
    by (rule validateField_rule [OF assms])
next
  show "\<forall>t c t' field fieldT.
          validateField n t = Inr (c, t') \<and>
          fieldElements s n = Some field \<and> fieldElements t n = Some fieldT \<and>
          (n \<noteq> terms \<longrightarrow> fieldValue fieldT = fieldValue field) \<and>
          (n = terms \<longrightarrow> checked fieldT = checked field) \<and>
          (n = confirmPassword \<longrightarrow> passwordValue t = passwordValue s)
          \<longrightarrow> c = b"
  proof (intro allI impI, elim conjE)
    fix t c t' field fieldT
    assume t: "validateField n t = Inr (c, t')"
      and f: "fieldElements s n = Some field" and ft: "fieldElements t n = Some fieldT"
      and same: "n \<noteq> terms \<longrightarrow> fieldValue fieldT = fieldValue field"
        "n = terms \<longrightarrow> checked fieldT = checked field"
        "n = confirmPassword \<longrightarrow> passwordValue t = passwordValue s"
    from validateField_rule [OF assms] f
    have b: "b = fieldRule n (fieldValue field) (checked field) (passwordValue s)" by simp
    from validateField_rule [OF t] ft
    have c: "c = fieldRule n (fieldValue fieldT) (checked fieldT) (passwordValue t)" by simp
    from b c fieldRule_reads [OF same] show "c = b" by simp
  qed
next
  show "\<not> b \<or> n = terms \<or>
          (n = phone \<and>
             (\<exists>field. fieldElements s phone = Some field \<and> trim (fieldValue field) = []))
          \<longrightarrow>
          form s' = form s \<and> formSuccess s' = formSuccess s \<and> timers s' = timers s \<and>
          (\<forall>k. k \<noteq> n \<longrightarrow>
             fieldElements s' k = fieldElements s k \<and> errorElements s' k = errorElements s k) \<and>
          (\<exists>field field'.
             fieldElements s n = Some field \<and> fieldElements s' n = Some field' \<and>
             fieldValue field' = fieldValue field \<and> checked field' = checked field \<and>
             defaultValue field' = defaultValue field \<and>
             defaultChecked field' = defaultChecked field \<and>
             (if b then isUnvalidated field' \<and> \<not> isSuccess field' else isError field')) \<and>
          (errorElements s n = None \<longrightarrow> errorElements s' n = None) \<and>
          (errorElements s n \<noteq> None \<longrightarrow> (\<exists>m. message s' n = Some m \<and> (m = [] \<longleftrightarrow> b)))"
  proof
    assume cond: "\<not> b \<or> n = terms \<or>
          (n = phone \<and>
             (\<exists>field. fieldElements s phone = Some field \<and> trim (fieldValue field) = []))"
    from validateField_cases [OF assms] obtain field where
      f: "fieldElements s n = Some field" by auto
    from validateField_cases [OF assms] cond
    consider (invalid) m where "\<not> b" "m \<noteq> []" "s' = showError n m s"
      | (cleared) "b" "s' = clearError n s"
      by auto
    then show "form s' = form s \<and> formSuccess s' = formSuccess s \<and> timers s' = timers s \<and>
          (\<forall>k. k \<noteq> n \<longrightarrow>
             fieldElements s' k = fieldElements s k \<and> errorElements s' k = errorElements s k) \<and>
          (\<exists>field field'.
             fieldElements s n = Some field \<and> fieldElements s' n = Some field' \<and>
             fieldValue field' = fieldValue field \<and> checked field' = checked field \<and>
             defaultValue field' = defaultValue field \<and>
             defaultChecked field' = defaultChecked field \<and>
             (if b then isUnvalidated field' \<and> \<not> isSuccess field' else isError field')) \<and>
          (errorElements s n = None \<longrightarrow> errorElements s' n = None) \<and>
          (errorElements s n \<noteq> None \<longrightarrow> (\<exists>m. message s' n = Some m \<and> (m = [] \<longleftrightarrow> b)))"
    proof cases
      case invalid
      with f show ?thesis
        by (auto simp: showError_sel message_def isError_def set_classList_add
              set_classList_remove tokens_differ)
    next
      case cleared
      with f show ?thesis
        by (auto simp: clearError_sel message_def isUnvalidated_def isSuccess_def
              set_classList_remove)
    qed
  qed
qed

theorem validateField_frame_witness:
  "outcome (validateField terms goodPage) = Inr True \<and>
   map_option isUnvalidated (fieldAfter terms (validateField terms goodPage)) = Some True \<and>
   messageAfter terms (validateField terms goodPage) = Some [] \<and>
   outcome (validateField terms uncheckedPage) = Inr False \<and>
   map_option isError (fieldAfter terms (validateField terms uncheckedPage)) = Some True \<and>
   outcome (validateField password (pageWith password (js ''a''))) = Inr False \<and>
   map_option isError
     (fieldAfter password (validateField password (pageWith password (js ''a'')))) = Some True"
proof -
  obtain b1 s1 where 1: "validateField terms goodPage = Inr (b1, s1)"
    by (auto simp: validateTerms_def goodPage_sel fail_def)
  obtain b2 s2 where 2: "validateField password (pageWith password (js ''a'')) = Inr (b2, s2)"
    by (auto simp: validatePassword_def pageWith_sel Let_def fail_def js_def)
  obtain b3 s3 where 3: "validateField terms uncheckedPage = Inr (b3, s3)"
    by (auto simp: validateTerms_def uncheckedPage_def registrationPage_def fail_def)
  have v: "firstViolated passwordSubRules (js ''a'') \<noteq> None"
    by (simp add: firstViolated_def passwordSubRules_def js_def)
  from validateField_frame [OF 1] have b1: "b1" and r1:
    "\<exists>field'. fieldElements s1 terms = Some field' \<and> isUnvalidated field'"
    "\<exists>m. message s1 terms = Some m \<and> (m = [] \<longleftrightarrow> b1)"
    by (auto simp: goodPage_sel)
  from validateField_frame [OF 2] v have b2: "\<not> b2" and r2:
    "\<exists>field'. fieldElements s2 password = Some field' \<and> isError field'"
    by (auto simp: pageWith_sel)
  from validateField_frame [OF 3] have b3: "\<not> b3" and r3:
    "\<exists>field'. fieldElements s3 terms = Some field' \<and> isError field'"
    by (auto simp: uncheckedPage_def registrationPage_def)
  from 1 2 3 b1 b2 b3 r1 r2 r3 show ?thesis
    by (auto simp: outcome_def fieldAfter_def messageAfter_def)
qed

section \<open>The reset after a successful submit\<close>

lemma fieldNames_all: "n \<in> set fieldNames"
  by (cases n) (simp_all add: fieldNames_def)

lemma allPresent_iff:
  "allPresent s \<longleftrightarrow> form s \<noteq> None \<and> formSuccess s \<noteq> None \<and> (\<forall>n. fieldElements s n \<noteq> None)"
  by (auto simp: allPresent_def list_all_iff fieldNames_all)

lemma noDefaults_iff:
  "noDefaults s \<longleftrightarrow>
     (\<forall>n field. fieldElements s n = Some field \<longrightarrow>
        (if n = terms then \<not> defaultChecked field else defaultValue field = []))"
  by (auto simp: noDefaults_def list_all_iff fieldNames_all split: option.splits)

lemma sameControls_allPresent:
  assumes "sameControls s s'"
  shows "allPresent s' \<longleftrightarrow> allPresent s"
proof -
  have "(fieldElements s' n = None) = (fieldElements s n = None)" for n
    by (rule sameControls_field(1) [OF assms])
  moreover from assms have "(form s' = None) = (form s = None)"
    "(formSuccess s' = None) = (formSuccess s = None)"
    by (simp_all add: sameControls_def)
  ultimately show ?thesis by (simp add: allPresent_iff)
qed

lemma sameControls_noDefaults:
  assumes "sameControls s s'" and "noDefaults s"
  shows "noDefaults s'"
  unfolding noDefaults_iff
proof (intro allI impI)
  fix n field'
  assume f': "fieldElements s' n = Some field'"
  with sameControls_field(1) [OF assms(1), of n] obtain field where
    f: "fieldElements s n = Some field" by auto
  from sameControls_field(2) [OF assms(1) f] f'
  have "defaultValue field' = defaultValue field" "defaultChecked field' = defaultChecked field"
    by auto
  with assms(2) f show "if n = terms then \<not> defaultChecked field' else defaultValue field' = []"
    by (simp add: noDefaults_iff)
qed

lemma foldl_clearError_sel:
  "form (foldl (\<lambda>st fieldName. clearError fieldName st) s ns) = form s"
  "formSuccess (foldl (\<lambda>st fieldName. clearError fieldName st) s ns) = formSuccess s"
  "timers (foldl (\<lambda>st fieldName. clearError fieldName st) s ns) = timers s"
  by (induction ns arbitrary: s) (simp_all add: clearError_sel)

lemma foldl_clearError_field:
  assumes "fieldElements s k = Some field"
  shows "\<exists>field'. fieldElements (foldl (\<lambda>st fieldName. clearError fieldName st) s ns) k =
            Some field' \<and>
          fieldValue field' = fieldValue field \<and> checked field' = checked field \<and>
          defaultValue field' = defaultValue field \<and>
          defaultChecked field' = defaultChecked field \<and>
          (k \<in> set ns \<or> isUnvalidated field \<longrightarrow> isUnvalidated field')"
  using assms
proof (induction ns arbitrary: s field)
  case Nil
  then show ?case by simp
next
  case (Cons n ns)
  let ?c = "\<lambda>field. field\<lparr>classList :=
         classList_remove (js ''success'') (classList_remove (js ''error'') (classList field))\<rparr>"
  show ?case
  proof (cases "k = n")
    case True
    with Cons.prems have 1: "fieldElements (clearError n s) k = Some (?c field)"
      by (simp add: clearError_sel)
    have "isUnvalidated (?c field)"
      by (simp add: isUnvalidated_def set_classList_remove)
    with Cons.IH [OF 1] show ?thesis by auto
  next
    case False
    with Cons.prems have 1: "fieldElements (clearError n s) k = Some field"
      by (simp add: clearError_sel)
    from Cons.IH [OF 1] False show ?thesis by auto
  qed
qed

lemma foldl_clearError_slot:
  "errorElements (foldl (\<lambda>st fieldName. clearError fieldName st) s ns) k =
     (if k \<in> set ns then map_option (\<lambda>slot. slot\<lparr>textContent := []\<rparr>) (errorElements s k)
      else errorElements s k)"
  by (induction ns arbitrary: s) (auto simp: clearError_sel option.map_comp comp_def)

text \<open>
  On a page that has all its elements and declares no defaults, \<open>resetForm\<close> completes
  and leaves the initial form state; it keeps the elements, the defaults and the timers.
\<close>

lemma resetForm_initial:
  assumes "allPresent s" and "noDefaults s"
  shows "\<exists>s'. resetForm s = Inr s' \<and> initialForm s' \<and> allPresent s' \<and> noDefaults s' \<and>
              timers s' = timers s"
proof -
  from assms(1) obtain f g where fg: "form s = Some f" "formSuccess s = Some g"
    by (auto simp: allPresent_iff)
  define s1 where "s1 = s\<lparr>fieldElements := (\<lambda>n. map_option
      (\<lambda>field. field\<lparr>fieldValue := defaultValue field, checked := defaultChecked field\<rparr>)
      (fieldElements s n))\<rparr>"
  define s2 where "s2 = foldl (\<lambda>st fieldName. clearError fieldName st) s1 fieldNames"
  define s' where "s' = s2\<lparr>form := Some (f\<lparr>display := js ''block''\<rparr>),
                           formSuccess := Some (g\<lparr>display := js ''none''\<rparr>)\<rparr>"
  have fr: "form_reset s = Inr s1"
    using fg by (simp add: form_reset_def s1_def)
  have s2fg: "form s2 = Some f" "formSuccess s2 = Some g" "timers s2 = timers s"
    using fg by (simp_all add: s2_def foldl_clearError_sel s1_def)
  have r: "resetForm s = Inr s'"
    using fr s2fg by (simp add: resetForm_def andThen_def Let_def s2_def [symmetric] s'_def)
  have field: "\<exists>field'. fieldElements s' n = Some field' \<and> initialField n field' \<and>
                 defaultValue field' = defaultValue field \<and>
                 defaultChecked field' = defaultChecked field"
    if "fieldElements s n = Some field" for n field
  proof -
    from that have 1: "fieldElements s1 n =
        Some (field\<lparr>fieldValue := defaultValue field, checked := defaultChecked field\<rparr>)"
      by (simp add: s1_def)
    from foldl_clearError_field [OF 1, where ns = fieldNames] obtain field' where
      2: "fieldElements s2 n = Some field'" "fieldValue field' = defaultValue field"
      "checked field' = defaultChecked field" "defaultValue field' = defaultValue field"
      "defaultChecked field' = defaultChecked field" "isUnvalidated field'"
      by (auto simp: s2_def fieldNames_all)
    from assms(2) that have "if n = terms then \<not> defaultChecked field else defaultValue field = []"
      by (simp add: noDefaults_iff)
    with 2 show ?thesis
      by (auto simp: s'_def initialField_def)
  qed
  have slot: "case errorElements s' n of None \<Rightarrow> True | Some slot \<Rightarrow> textContent slot = []" for n
    by (cases "errorElements s1 n")
       (simp_all add: s'_def s2_def foldl_clearError_slot fieldNames_all)
  have present: "fieldElements s n \<noteq> None" for n
    using assms(1) by (simp add: allPresent_iff)
  have i: "initialForm s'"
    unfolding initialForm_def list_all_iff
  proof (intro conjI ballI)
    fix n
    from present [of n] obtain field where "fieldElements s n = Some field" by auto
    from field [OF this]
    show "case fieldElements s' n of None \<Rightarrow> False | Some field \<Rightarrow> initialField n field"
      by auto
  next
    fix n
    show "case errorElements s' n of None \<Rightarrow> True | Some slot \<Rightarrow> textContent slot = []"
      by (rule slot)
  next
    show "map_option display (form s') = Some (js ''block'')" by (simp add: s'_def)
  next
    show "map_option display (formSuccess s') = Some (js ''none'')" by (simp add: s'_def)
  qed
  have a: "allPresent s'"
    unfolding allPresent_iff
  proof (intro conjI allI)
    show "form s' \<noteq> None" "formSuccess s' \<noteq> None" by (simp_all add: s'_def)
  next
    fix n
    from present [of n] obtain field where "fieldElements s n = Some field" by auto
    from field [OF this] show "fieldElements s' n \<noteq> None" by auto
  qed
  have d: "noDefaults s'"
    unfolding noDefaults_iff
  proof (intro allI impI)
    fix n field'
    assume f': "fieldElements s' n = Some field'"
    from present [of n] obtain field where f: "fieldElements s n = Some field" by auto
    from field [OF f] f' assms(2) f
    show "if n = terms then \<not> defaultChecked field' else defaultValue field' = []"
      by (auto simp: noDefaults_iff)
  qed
  have "timers s' = timers s" using s2fg by (simp add: s'_def)
  with r i a d show ?thesis by blast
qed

lemma allPresent_timers: "allPresent (s\<lparr>timers := ts\<rparr>) = allPresent s"
  by (simp add: allPresent_def)

lemma noDefaults_timers: "noDefaults (s\<lparr>timers := ts\<rparr>) = noDefaults s"
  by (simp add: noDefaults_def)

lemma fireTimer_initial:
  assumes "allPresent s" and "noDefaults s" and "timers s \<noteq> []"
  shows "\<exists>s'. fireTimer s = Inr s' \<and> initialForm s' \<and> allPresent s' \<and> noDefaults s' \<and>
              timers s' = tl (timers s)"
proof -
  from assms(3) obtain d ds where t: "timers s = d # ds" by (cases "timers s") auto
  from resetForm_initial [of "s\<lparr>timers := ds\<rparr>"] assms(1,2)
  obtain s' where "resetForm (s\<lparr>timers := ds\<rparr>) = Inr s'" "initialForm s'" "allPresent s'"
    "noDefaults s'" "timers s' = ds"
    by (auto simp: allPresent_timers noDefaults_timers)
  with t show ?thesis by (simp add: fireTimer_def)
qed

lemma runTimers_initial:
  assumes "allPresent s" and "noDefaults s" and "length (timers s) = Suc k"
  shows "\<exists>s'. runTimers (Suc k) s = Inr s' \<and> initialForm s' \<and> timers s' = []"
  using assms
proof (induction k arbitrary: s)
  case 0
  then have ne: "timers s \<noteq> []" and tl: "tl (timers s) = []"
    by (cases "timers s"; simp)+
  from fireTimer_initial [OF "0.prems"(1,2) ne] tl show ?case
    by (auto simp: andThen_def)
next
  case (Suc k)
  then have "timers s \<noteq> []" by auto
  from fireTimer_initial [OF Suc.prems(1,2) this] obtain s1 where
    1: "fireTimer s = Inr s1" "allPresent s1" "noDefaults s1" "timers s1 = tl (timers s)"
    by blast
  with Suc.prems(3) have "length (timers s1) = Suc k" by simp
  from Suc.IH [OF 1(2,3) this] 1(1) show ?case
    by (auto simp: andThen_def)
qed

text \<open>
  Claim C9. After a successful submit (\<open>validateAllFields\<close> returned true and
  \<open>handleSubmit\<close> showed the success view), on a page whose markup declares no default
  values, a reset is pending, and when it fires it leaves the initial form state: the six
  text fields empty and the checkbox unchecked, no field in the error or the success
  state, every error slot empty, the form shown and the success view hidden. The same
  holds once every pending timer has fired.
\<close>

theorem reset_round_trip:
  assumes "validateAllFields s = Inr (True, s0)" and "handleSubmit s = Inr s1"
    and "noDefaults s"
  shows "map_option display (form s1) = Some (js ''none'') \<and>
         map_option display (formSuccess s1) = Some (js ''block'') \<and>
         timers s1 \<noteq> [] \<and>
         (\<exists>s2. fireTimer s1 = Inr s2 \<and> initialForm s2) \<and>
         (\<exists>s3. runTimers (length (timers s1)) s1 = Inr s3 \<and> initialForm s3 \<and> timers s3 = [])"
proof -
  from validateAllFields_conjunction [OF assms(1)]
  have sc: "sameControls s s0" and pr: "\<forall>n. fieldElements s n \<noteq> None" by simp_all
  from assms(1,2) have ss: "showSuccess s0 = Inr s1"
    by (simp add: handleSubmit_def andThen_def)
  then obtain f g where fg: "form s0 = Some f" "formSuccess s0 = Some g"
    and s1: "s1 = s0\<lparr>form := Some (f\<lparr>display := js ''none''\<rparr>),
                     formSuccess := Some (g\<lparr>display := js ''block''\<rparr>),
                     timers := timers s0 @ [5000]\<rparr>"
    by (auto simp: showSuccess_def split: option.splits)
  from sc ss have sc1: "sameControls s s1"
    by (blast intro: sameControls_trans sameControls_showSuccess)
  have "fieldElements s1 n \<noteq> None" for n
    using sameControls_field(1) [OF sc1, of n] pr by simp
  moreover have "form s1 \<noteq> None" "formSuccess s1 \<noteq> None"
    using s1 by simp_all
  ultimately have "allPresent s1"
    by (simp add: allPresent_iff)
  moreover have "noDefaults s1"
    using sc1 assms(3) by (rule sameControls_noDefaults)
  moreover have t: "timers s1 \<noteq> []" using s1 by simp
  moreover from t obtain k where "length (timers s1) = Suc k"
    by (cases "timers s1") auto
  ultimately show ?thesis
    using fireTimer_initial [of s1] runTimers_initial [of s1 k] s1
    by auto
qed

theorem reset_round_trip_witness:
  "outcome (validateAllFields goodPage) = Inr True \<and> noDefaults goodPage \<and>
   (\<exists>s1 s3. handleSubmit goodPage = Inr s1 \<and> timers s1 \<noteq> [] \<and>
      runTimers (length (timers s1)) s1 = Inr s3 \<and> initialForm s3 \<and> timers s3 = [])"
proof -
  from validateAllFields_outcome [of goodPage "\<lambda>n. True"] obtain s0 where
    r: "validateAllFields goodPage = Inr (True, s0)" and sc: "sameControls goodPage s0"
    by (auto simp: goodPage_outcome list_all_iff)
  have d: "noDefaults goodPage"
    by (simp add: noDefaults_def goodPage_sel fieldNames_def)
  have "form s0 \<noteq> None" "formSuccess s0 \<noteq> None"
    using sc by (simp_all add: sameControls_def goodPage_sel)
  then obtain s1 where h: "handleSubmit goodPage = Inr s1"
    using r by (auto simp: handleSubmit_def andThen_def showSuccess_def)
  from reset_round_trip [OF r h d] r h d show ?thesis
    by (auto simp: outcome_def)
qed

text \<open>
  What a valid outcome of the other validators does, by the \<open>showSuccess\<close> in force:
  the field and its slot stay as they were, the form is hidden, the success view is shown
  and a reset is scheduled.
\<close>

lemma validateField_valid_effect:
  assumes "validateField n s = Inr (True, s')" and "n \<noteq> terms"
    and "n = phone \<longrightarrow> (\<exists>field. fieldElements s phone = Some field \<and> trim (fieldValue field) \<noteq> [])"
  shows "fieldElements s' = fieldElements s \<and> errorElements s' = errorElements s \<and>
         map_option display (form s') = Some (js ''none'') \<and>
         map_option display (formSuccess s') = Some (js ''block'') \<and>
         timers s' = timers s @ [5000]"
  using validateField_cases [OF assms(1)] assms(2,3)
  by (auto simp: showSuccess_def split: option.splits)

section \<open>Valid input is accepted\<close>

lemma trim_id:
  "v \<noteq> [] \<Longrightarrow> \<not> isWhiteSpace (hd v) \<Longrightarrow> \<not> isWhiteSpace (last v) \<Longrightarrow> trim v = v"
proof -
  assume v: "v \<noteq> []" "\<not> isWhiteSpace (hd v)" "\<not> isWhiteSpace (last v)"
  from v have 1: "dropWhile isWhiteSpace v = v" by (simp add: dropWhile_eq_self_iff)
  from v have 2: "dropWhile isWhiteSpace (rev v) = rev v"
    by (simp add: dropWhile_eq_self_iff hd_rev)
  show ?thesis by (simp add: trim_def 1 2)
qed

lemma run1_ends:
  assumes "run1 w"
  shows "w \<noteq> [] \<and> \<not> isWhiteSpace (hd w) \<and> \<not> isWhiteSpace (last w)"
proof -
  from assms have ne: "w \<noteq> []" and all: "\<forall>c \<in> set w. notSpaceAt c"
    by (simp_all add: run1_def list_all_iff)
  from ne all have "notSpaceAt (hd w)" "notSpaceAt (last w)" by simp_all
  with ne show ?thesis by (simp add: notSpaceAt_def)
qed

text \<open>A string the e-mail pattern matches has no white space at its ends.\<close>

lemma emailRegex_trim:
  assumes "emailRegex_test v"
  shows "trim v = v"
proof -
  from assms obtain i j where ij: "i < j" "j < length v"
    and a: "run1 (take i v)" and c: "run1 (drop (Suc j) v)"
    by (auto simp: emailRegex_test_def list_ex_iff)
  from run1_ends [OF a] have t: "take i v \<noteq> []" "\<not> isWhiteSpace (hd (take i v))"
    by blast+
  from t(1) have "0 < i" "v \<noteq> []" by auto
  then have "hd (take i v) = hd v" by (cases v; cases i) simp_all
  with t(2) \<open>v \<noteq> []\<close> have h: "v \<noteq> []" "\<not> isWhiteSpace (hd v)" by simp_all
  from run1_ends [OF c] have d: "drop (Suc j) v \<noteq> []"
    "\<not> isWhiteSpace (last (drop (Suc j) v))"
    by blast+
  from d(1) have "Suc j < length v" by simp
  then have "last (drop (Suc j) v) = last v" by (rule last_drop)
  with d(2) have "\<not> isWhiteSpace (last v)" by simp
  with h show ?thesis by (simp add: trim_id)
qed

lemma parseInt_Nil: "parseInt [] = None"
  by (simp add: parseInt_def)

text \<open>
  The first half of claim C1 holds: when the seven values have the valid shape, on a page
  with all its elements, \<open>validateAllFields\<close> returns true.
\<close>

lemma validateAllFields_accepts:
  assumes present: "allPresent s"
    and vals: "\<And>n. map_option fieldValue (fieldElements s n) = Some (vals n)"
    and termsChecked: "map_option checked (fieldElements s terms) = Some True"
    and name: "2 \<le> length (trim (vals fullName))"
      "\<forall>c \<in> set (trim (vals fullName)). isLower c \<or> isUpper c \<or> isWhiteSpace c"
    and mail: "emailRegex_test (vals email)"
    and pw: "8 \<le> length (vals password)" "\<exists>c \<in> set (vals password). isUpper c"
      "\<exists>c \<in> set (vals password). isLower c" "\<exists>c \<in> set (vals password). isDigit c"
      "\<exists>c \<in> set (vals password). isSpecial c"
    and confirm: "vals confirmPassword = vals password"
    and years: "parseInt (vals age) = Some a" "13 \<le> a" "a \<le> 120"
    and tel: "vals phone = [] \<or>
      (10 \<le> length (digitsOnly (vals phone)) \<and> length (digitsOnly (vals phone)) \<le> 15)"
  shows "outcome (validateAllFields s) = Inr True"
proof -
  from present obtain f g where fg: "form s = Some f" "formSuccess s = Some g"
    by (auto simp: allPresent_iff)
  note ok = outcome_succeed [OF fg]
  have el: "\<exists>field. fieldElements s n = Some field \<and> fieldValue field = vals n" for n
    using vals [of n] by (cases "fieldElements s n") auto
  have 1: "outcome (validateField fullName s) = Inr True"
  proof -
    from name(1) have "trim (vals fullName) \<noteq> []" by auto
    with el [of fullName] name ok show ?thesis
      by (auto simp: validateFullName_def Let_def nameRegex_test_def list_all_iff)
  qed
  have 2: "outcome (validateField email s) = Inr True"
  proof -
    from mail have "vals email \<noteq> []" by (auto simp: emailRegex_test_def)
    with el [of email] mail ok show ?thesis
      by (auto simp: validateEmail_def Let_def emailRegex_trim)
  qed
  have 3: "outcome (validateField password s) = Inr True"
  proof -
    from pw(1) have "vals password \<noteq> []" by auto
    with el [of password] pw ok show ?thesis
      by (auto simp: validatePassword_def Let_def hasUpperCase_def hasLowerCase_def
            hasNumbers_def hasSpecialChar_def list_ex_iff)
  qed
  have 4: "outcome (validateField confirmPassword s) = Inr True"
  proof -
    from pw(1) have "vals password \<noteq> []" by auto
    with el [of password] el [of confirmPassword] confirm ok show ?thesis
      by (auto simp: validateConfirmPassword_def Let_def)
  qed
  have 5: "outcome (validateField age s) = Inr True"
  proof -
    from years(1) have "vals age \<noteq> []" using parseInt_Nil by auto
    with el [of age] years ok show ?thesis
      by (auto simp: validateAge_def Let_def)
  qed
  have 6: "outcome (validateField phone s) = Inr True"
  proof (cases "trim (vals phone) = []")
    case True
    with el [of phone] show ?thesis
      by (auto simp: validatePhone_def Let_def outcome_Inr)
  next
    case False
    then have "vals phone \<noteq> []" by (auto simp: trim_def)
    with tel False el [of phone] ok show ?thesis
      by (auto simp: validatePhone_def Let_def digitsOnly_trim)
  qed
  have 7: "outcome (validateField terms s) = Inr True"
    using termsChecked by (cases "fieldElements s terms") (auto simp: validateTerms_def outcome_Inr)
  have "outcome (validateField n s) = Inr True" for n
    using 1 2 3 4 5 6 7 by (cases n) simp_all
  from validateAllFields_outcome [of s "\<lambda>n. True", OF this] show ?thesis
    by (auto simp: outcome_def list_all_iff)
qed

end
